theory Spec2Isabelle
  imports
    Complex_Main
    "HOL-Library.Char_ord"
    "HOL-Library.List_Lexorder"
    "HOL-Library.Product_Lexorder"
    "HOL-Library.AList"
begin

section \<open>Data model of \<open>src/main.js\<close>\<close>

text \<open>
  The program is a health diary: timestamped events in an IndexedDB object store, a
  per-day weather cache, and DAY/NIGHT cycles derived from the sleep events.

  Timestamps are epoch milliseconds (\<open>Date.now()\<close>, \<open>+new Date(v)\<close>) and are modelled
  as \<open>int\<close>; their differences are exact in JavaScript as long as they stay below
  \<open>2^53\<close>, which the times of one diary do. A JavaScript property that may be absent (\<open>undefined\<close>) or \<open>null\<close> is an
  \<open>option\<close>; for \<open>id\<close> and \<open>dateKey\<close> of an event, where the object spread of \<open>addEvent\<close>
  tells a property that is absent from one that is there with no value, it is a
  \<open>property\<close>. Three source names are not available in Isabelle and carry a prefix:
  \<open>id\<close> is \<open>eid\<close> on events and \<open>cid\<close> on cycles, \<open>type\<close> is \<open>etype\<close> and \<open>ctype\<close>, and
  \<open>note\<close> is \<open>enote\<close>.
\<close>

text \<open>The weather attached to an event: \<open>{ temp, hum, lat, lon }\<close> (\<open>weatherForEventTs\<close>).
  Temperatures and humidities are JSON numbers, modelled as rationals; a coordinate is
  a number rounded to three decimals (\<open>+x.toFixed(3)\<close>), modelled as its count of
  thousandths of a degree.\<close>

record reading =
  temp :: rat
  hum :: rat
  lat :: int
  lon :: int

text \<open>A property of an object: not an own property at all, an own property whose value
  is \<open>null\<close> or \<open>undefined\<close>, or an own property with a value.\<close>

datatype 'a property = Absent | Nullish | Present 'a

text \<open>An event object. \<open>etype\<close> is the string the source compares with
  \<open>'sleep_start'\<close>, \<open>'water'\<close>, ...; \<open>level\<close> and \<open>duration\<close> are the digit strings the
  prompts store.\<close>

record event =
  eid :: "string property"
  etype :: string
  ts :: int
  dateKey :: "string property"
  weather :: "reading option"
  amount :: "int option"
  subtype :: "string option"
  enote :: "string option"
  level :: "string option"
  duration :: "string option"

datatype phase = DAY | NIGHT

text \<open>A cycle object as \<open>buildCyclesFromEvents\<close> pushes it.\<close>

record cycle =
  cid :: string
  ctype :: phase
  startTs :: "int option"
  endTs :: "int option"
  startEvent :: "event option"
  endEvent :: "event option"

section \<open>Cycle builder: \<open>buildCyclesFromEvents\<close>\<close>

text \<open>
  The local variables of \<open>buildCyclesFromEvents\<close>: \<open>cycles\<close>, \<open>phase\<close>, \<open>startTs\<close>
  and \<open>startEventRef\<close>. \<open>uuid()\<close> is called once for every cycle pushed, so the
  cycle pushed when \<open>n\<close> cycles exist takes the \<open>n\<close>-th value of the generator, the
  parameter \<open>uuid :: nat \<Rightarrow> string\<close>. \<open>Date.now()\<close> is the parameter \<open>now\<close>.
\<close>

record builder =
  b_cycles :: "cycle list"
  b_phase :: phase
  b_startTs :: "int option"
  b_startEventRef :: "event option"

text \<open>\<open>cycles.push({ id: uuid(), type, startTs, endTs, startEvent, endEvent })\<close>.\<close>

definition push_cycle ::
  "(nat \<Rightarrow> string) \<Rightarrow> cycle list \<Rightarrow> phase \<Rightarrow> int option \<Rightarrow> int option \<Rightarrow>
   event option \<Rightarrow> event option \<Rightarrow> cycle list" where
  "push_cycle uuid cs ty s e se ee =
     cs @ [\<lparr>cid = uuid (length cs), ctype = ty, startTs = s, endTs = e,
            startEvent = se, endEvent = ee\<rparr>]"

text \<open>The body of \<open>for (const e of sortedEvents)\<close> (lines 242-290).\<close>

definition scan_event :: "(nat \<Rightarrow> string) \<Rightarrow> builder \<Rightarrow> event \<Rightarrow> builder" where
  "scan_event uuid b e =
     (if etype e = ''sleep_start'' then
        (if b_phase b = DAY then
           \<lparr>b_cycles =
              (if b_startTs b \<noteq> None
               then push_cycle uuid (b_cycles b) DAY (b_startTs b) (Some (ts e))
                      (b_startEventRef b) (Some e)
               else b_cycles b),
            b_phase = NIGHT, b_startTs = Some (ts e), b_startEventRef = Some e\<rparr>
         else
           \<lparr>b_cycles = push_cycle uuid (b_cycles b) NIGHT (b_startTs b) (Some (ts e))
                         (b_startEventRef b) None,
            b_phase = NIGHT, b_startTs = Some (ts e), b_startEventRef = Some e\<rparr>)
      else if etype e = ''sleep_end'' then
        (if b_phase b = NIGHT then
           \<lparr>b_cycles = push_cycle uuid (b_cycles b) NIGHT (b_startTs b) (Some (ts e))
                         (b_startEventRef b) (Some e),
            b_phase = DAY, b_startTs = Some (ts e), b_startEventRef = Some e\<rparr>
         else
           \<lparr>b_cycles = b_cycles b,
            b_phase = DAY, b_startTs = Some (ts e), b_startEventRef = Some e\<rparr>)
      else b)"

text \<open>The seed (lines 214-240): the state the loop starts in, or \<open>None\<close> for the empty
  list, where the function returns the synthetic cycle at once.\<close>

definition seed :: "event list \<Rightarrow> builder option" where
  "seed sortedEvents =
     (let firstSleepStart = find (\<lambda>e. etype e = ''sleep_start'') sortedEvents;
          firstSleepEnd = find (\<lambda>e. etype e = ''sleep_end'') sortedEvents
      in if firstSleepStart \<noteq> None \<and>
            (firstSleepEnd = None \<or> ts (the firstSleepStart) < ts (the firstSleepEnd))
         then Some \<lparr>b_cycles = [], b_phase = NIGHT,
                     b_startTs = Some (ts (the firstSleepStart)),
                     b_startEventRef = firstSleepStart\<rparr>
         else if firstSleepEnd \<noteq> None
         then Some \<lparr>b_cycles = [], b_phase = DAY,
                     b_startTs = Some (ts (the firstSleepEnd)),
                     b_startEventRef = firstSleepEnd\<rparr>
         else (case sortedEvents of
                 e0 # _ \<Rightarrow> Some \<lparr>b_cycles = [], b_phase = DAY,
                                  b_startTs = Some (ts e0), b_startEventRef = None\<rparr>
               | [] \<Rightarrow> None))"

definition buildCyclesFromEvents :: "int \<Rightarrow> (nat \<Rightarrow> string) \<Rightarrow> event list \<Rightarrow> cycle list" where
  "buildCyclesFromEvents now uuid sortedEvents =
     (case seed sortedEvents of
        None \<Rightarrow>
          [\<lparr>cid = ''virtual-now'', ctype = DAY, startTs = Some now, endTs = None,
            startEvent = None, endEvent = None\<rparr>]
      | Some b0 \<Rightarrow>
          (let b = foldl (scan_event uuid) b0 sortedEvents
           in push_cycle uuid (b_cycles b) (b_phase b) (b_startTs b) None
                (b_startEventRef b) None))"

text \<open>An event with only \<open>type\<close> and \<open>ts\<close> set, as the quick actions and the sleep
  buttons create it: \<open>{ type, ts }\<close>.\<close>

definition mk_event :: "string \<Rightarrow> int \<Rightarrow> event" where
  "mk_event ty t =
     \<lparr>eid = Absent, etype = ty, ts = t, dateKey = Absent, weather = None, amount = None,
      subtype = None, enote = None, level = None, duration = None\<rparr>"

section \<open>Errors and the platform\<close>

text \<open>
  Exceptions are values. \<open>DataError\<close> is IndexedDB's (a record put without its key, a
  key range with \<open>lower > upper\<close> or with a bound that is no key); \<open>TypeError\<close> is
  reading a property of \<open>undefined\<close>; \<open>FetchError\<close> is the source's own
  \<open>throw new Error('Falha ao buscar clima')\<close>; \<open>NetworkError\<close> is a rejected \<open>fetch\<close>
  and \<open>SyntaxError\<close> a rejected \<open>resp.json()\<close>.
\<close>

datatype error = DataError | TypeError | FetchError | NetworkError | SyntaxError

text \<open>What \<open>navigator.geolocation\<close> gives \<open>getLatLon\<close>: no geolocation object, the
  error callback (denied, or the 8 s timeout), or a position, given by the two
  coordinates as \<open>+x.toFixed(3)\<close> rounds them.\<close>

datatype geolocation = NoGeolocation | PositionError | Position int int

text \<open>A JSON array element of the weather answer: a number, or \<open>None\<close> for \<open>null\<close>.
  \<open>typeof x === 'number'\<close> holds of \<open>Some\<close> only.\<close>

type_synonym sample = "rat option"

text \<open>The body of the weather answer. \<open>time\<close> holds, for each time string \<open>t\<close> of the
  answer, the number \<open>+new Date(t)\<close>.\<close>

record hourly_series =
  time :: "int list option"
  temperature_2m :: "sample list option"
  relative_humidity_2m :: "sample list option"

record json_body =
  hourly :: "hourly_series option"

text \<open>The request \<open>getDailyWeatherArrays\<close> builds (the search parameters that vary),
  and what \<open>fetch\<close> answers: a rejection, or a response with its \<open>ok\<close> flag and its
  body (\<open>None\<close> when the body is not JSON).\<close>

record request =
  latitude :: int
  longitude :: int
  start_date :: string
  end_date :: string

datatype fetch_result = Rejected | Response bool "json_body option"

text \<open>The platform during one operation: \<open>Date.now()\<close>, the values of the successive
  calls of \<open>uuid()\<close>, \<open>Date.prototype.toISOString\<close> on a time value, the geolocation,
  \<open>fetch\<close>, and \<open>parseInt\<close> (\<open>None\<close> for \<open>NaN\<close>).\<close>

record env =
  env_now :: int
  env_uuid :: "nat \<Rightarrow> string"
  env_toISOString :: "int \<Rightarrow> string"
  env_geolocation :: geolocation
  env_fetch :: "request \<Rightarrow> fetch_result"
  env_parseInt :: "string \<Rightarrow> int option"

text \<open>\<open>Math.min(...xs)\<close> and \<open>Math.max(...xs)\<close> on such an array: \<open>null\<close> counts as 0,
  and the empty array gives \<open>Infinity\<close> and \<open>-Infinity\<close>.\<close>

datatype jsnum = Fin rat | PosInf | NegInf

definition ToNumber :: "sample \<Rightarrow> rat" where
  "ToNumber x = (case x of None \<Rightarrow> 0 | Some q \<Rightarrow> q)"

definition Math_min :: "sample list \<Rightarrow> jsnum" where
  "Math_min xs = (case map ToNumber xs of [] \<Rightarrow> PosInf | y # ys \<Rightarrow> Fin (fold min ys y))"

definition Math_max :: "sample list \<Rightarrow> jsnum" where
  "Math_max xs = (case map ToNumber xs of [] \<Rightarrow> NegInf | y # ys \<Rightarrow> Fin (fold max ys y))"

section \<open>Stores\<close>

text \<open>
  A record of the \<open>weather_cache\<close> store. Its key \<open>`${dateKey}:${lat}:${lon}`\<close> is
  modelled as the triple it is built from. The three arrays are optional, since
  \<open>getDailyWeatherArrays\<close> tests them on a cached record. The fields \<open>dateKey\<close>, \<open>lat\<close>
  and \<open>lon\<close> carry the prefix \<open>w_\<close> (the event and the reading have fields of these
  names).
\<close>

type_synonym cache_key = "string \<times> int \<times> int"

record weather_rec =
  w_key :: cache_key
  w_dateKey :: string
  w_lat :: int
  w_lon :: int
  hours :: "int list option"
  temps :: "sample list option"
  hums :: "sample list option"
  minTemp :: jsnum
  maxTemp :: jsnum
  minHum :: jsnum
  maxHum :: jsnum
  fetchedAt :: int

text \<open>
  The \<open>events\<close> object store (key path \<open>id\<close>) is an association list from ids to
  records; \<open>put\<close> replaces the record of an id or adds one. The database, the log of
  the requests sent to the weather API and the global \<open>state\<close> of the page
  (\<open>currentCycleIdx\<close>, \<open>cycles\<close>) are the state the operations pass on.
\<close>

type_synonym event_store = "(string \<times> event) list"

record world =
  events_store :: event_store
  weather_cache :: "cache_key \<rightharpoonup> weather_rec"
  fetch_log :: "request list"
  currentCycleIdx :: int
  cycles :: "cycle list"

text \<open>\<open>dbase.put('events', r)\<close>: IndexedDB raises \<open>DataError\<close> when the record has no
  valid key at the key path (no \<open>id\<close>, or \<open>null\<close> or \<open>undefined\<close>).\<close>

definition put_event :: "event_store \<Rightarrow> event \<Rightarrow> error + event_store" where
  "put_event store r =
     (case eid r of
        Absent \<Rightarrow> Inl DataError
      | Nullish \<Rightarrow> Inl DataError
      | Present k \<Rightarrow> Inr (AList.update k r store))"

text \<open>Iterating the index \<open>by_ts\<close>: the records by ascending \<open>ts\<close>, those of equal \<open>ts\<close>
  by ascending primary key.\<close>

definition index_by_ts :: "event_store \<Rightarrow> event list" where
  "index_by_ts store = map snd (sort_key (\<lambda>(k, e). (ts e, k)) store)"

text \<open>\<open>getAllEvents\<close> and \<open>eventsBetween\<close>: the cursor's records, then
  \<open>out.sort((a,b)=>a.ts-b.ts)\<close>, a stable sort. \<open>IDBKeyRange.bound(startTs, endTs)\<close>
  raises \<open>DataError\<close> when \<open>startTs\<close> is \<open>null\<close> or greater than \<open>endTs\<close>.\<close>

definition getAllEvents :: "event_store \<Rightarrow> event list" where
  "getAllEvents store = sort_key ts (index_by_ts store)"

definition eventsBetween :: "event_store \<Rightarrow> int option \<Rightarrow> int \<Rightarrow> error + event list" where
  "eventsBetween store lo hi =
     (case lo of
        None \<Rightarrow> Inl DataError
      | Some l \<Rightarrow>
          if l > hi then Inl DataError
          else Inr (sort_key ts (filter (\<lambda>e. l \<le> ts e \<and> ts e \<le> hi) (index_by_ts store))))"

section \<open>Weather: \<open>getLatLon\<close>, \<open>getDailyWeatherArrays\<close>, \<open>nearestWeatherAtTs\<close>,
  \<open>weatherForEventTs\<close>\<close>

text \<open>\<open>ymd = d => d.toISOString().slice(0,10)\<close>; a \<open>Date\<close> is its time value.\<close>

definition ymd :: "(int \<Rightarrow> string) \<Rightarrow> int \<Rightarrow> string" where
  "ymd toISOString d = take 10 (toISOString d)"

definition getLatLon :: "geolocation \<Rightarrow> (int \<times> int) option" where
  "getLatLon g =
     (case g of
        NoGeolocation \<Rightarrow> None
      | Position la lo \<Rightarrow> Some (la, lo)
      | PositionError \<Rightarrow> None)"

text \<open>\<open>cached?.hours && cached?.temps && cached?.hums\<close>: every array is truthy, the
  empty one too.\<close>

definition has_arrays :: "weather_rec option \<Rightarrow> bool" where
  "has_arrays cached =
     (case cached of
        None \<Rightarrow> False
      | Some c \<Rightarrow> hours c \<noteq> None \<and> temps c \<noteq> None \<and> hums c \<noteq> None)"

text \<open>\<open>x || []\<close> on an optional array.\<close>

definition or_empty :: "'a list option \<Rightarrow> 'a list" where
  "or_empty x = (case x of None \<Rightarrow> [] | Some xs \<Rightarrow> xs)"

definition getDailyWeatherArrays ::
  "env \<Rightarrow> world \<Rightarrow> int \<Rightarrow> int \<Rightarrow> int \<Rightarrow> (error + weather_rec) \<times> world" where
  "getDailyWeatherArrays env w date la lo =
     (let dk = ymd (env_toISOString env) date;
          k = (dk, la, lo);
          cached = weather_cache w k
      in if has_arrays cached then (Inr (the cached), w)
         else
           (let req = \<lparr>latitude = la, longitude = lo, start_date = dk, end_date = dk\<rparr>;
                w1 = w\<lparr>fetch_log := fetch_log w @ [req]\<rparr>
            in case env_fetch env req of
                 Rejected \<Rightarrow> (Inl NetworkError, w1)
               | Response ok body \<Rightarrow>
                   if \<not> ok then (Inl FetchError, w1)
                   else
                     (case body of
                        None \<Rightarrow> (Inl SyntaxError, w1)
                      | Some json \<Rightarrow>
                          (let hs = or_empty (case hourly json of None \<Rightarrow> None | Some h \<Rightarrow> time h);
                               tps = or_empty (case hourly json of None \<Rightarrow> None
                                              | Some h \<Rightarrow> temperature_2m h);
                               hms = or_empty (case hourly json of None \<Rightarrow> None
                                              | Some h \<Rightarrow> relative_humidity_2m h);
                               r = \<lparr>w_key = k, w_dateKey = dk, w_lat = la, w_lon = lo,
                                    hours = Some hs, temps = Some tps, hums = Some hms,
                                    minTemp = Math_min tps, maxTemp = Math_max tps,
                                    minHum = Math_min hms, maxHum = Math_max hms,
                                    fetchedAt = env_now env\<rparr>
                           in (Inr r, w1\<lparr>weather_cache := (weather_cache w1)(k \<mapsto> r)\<rparr>)))))"

text \<open>\<open>xs[i]\<close> on an array of samples: \<open>undefined\<close>, which is no number, out of range.\<close>

definition at_index :: "sample list \<Rightarrow> nat \<Rightarrow> sample" where
  "at_index xs i = (if i < length xs then xs ! i else None)"

text \<open>The loop of \<open>nearestWeatherAtTs\<close> (lines 91-96): the pair is
  \<open>(bestIdx, bestDiff)\<close>, and \<open>i\<close> runs from 1 to \<open>hours.length - 1\<close>.\<close>

definition nearest_step :: "int list \<Rightarrow> int \<Rightarrow> nat \<times> int \<Rightarrow> nat \<Rightarrow> nat \<times> int" where
  "nearest_step hs t best i =
     (let diff = \<bar>hs ! i - t\<bar> in if diff < snd best then (i, diff) else best)"

definition nearest_index :: "int list \<Rightarrow> int \<Rightarrow> nat" where
  "nearest_index hs t = fst (foldl (nearest_step hs t) (0, \<bar>hs ! 0 - t\<bar>) [1..<length hs])"

text \<open>The result \<open>{ temp, hum }\<close> is the pair \<open>(temp, hum)\<close>; \<open>null\<close> is \<open>None\<close>.\<close>

definition nearestWeatherAtTs :: "weather_rec option \<Rightarrow> int \<Rightarrow> error + (rat \<times> rat) option" where
  "nearestWeatherAtTs rcd t =
     (case rcd of
        None \<Rightarrow> Inr None
      | Some r \<Rightarrow>
          (case hours r of
             None \<Rightarrow> Inr None
           | Some hs \<Rightarrow>
               if length hs = 0 then Inr None
               else
                 (let bestIdx = nearest_index hs t
                  in case temps r of
                       None \<Rightarrow> Inl TypeError
                     | Some tps \<Rightarrow>
                         (case hums r of
                            None \<Rightarrow> Inl TypeError
                          | Some hms \<Rightarrow>
                              (case (at_index tps bestIdx, at_index hms bestIdx) of
                                 (Some tv, Some hv) \<Rightarrow> Inr (Some (tv, hv))
                               | _ \<Rightarrow> Inr None)))))"

definition weatherForEventTs :: "env \<Rightarrow> world \<Rightarrow> int \<Rightarrow> (error + reading option) \<times> world" where
  "weatherForEventTs env w t =
     (case getLatLon (env_geolocation env) of
        None \<Rightarrow> (Inr None, w)
      | Some (la, lo) \<Rightarrow>
          (case getDailyWeatherArrays env w t la lo of
             (Inl e, w1) \<Rightarrow> (Inl e, w1)
           | (Inr r, w1) \<Rightarrow>
               (case nearestWeatherAtTs (Some r) t of
                  Inl e \<Rightarrow> (Inl e, w1)
                | Inr None \<Rightarrow> (Inr None, w1)
                | Inr (Some (tv, hv)) \<Rightarrow>
                    (Inr (Some \<lparr>temp = tv, hum = hv, lat = w_lat r, lon = w_lon r\<rparr>), w1))))"

section \<open>Cycle statistics: \<open>calcCycleStats\<close>\<close>

text \<open>
  The object \<open>calcCycleStats\<close> returns. A number that may be \<open>undefined\<close> is an
  \<open>option\<close>; \<open>solDuration\<close> is \<open>None\<close> when the sum is \<open>NaN\<close>. \<open>parseInt\<close> is a
  parameter: the platform's function, giving \<open>None\<close> for \<open>NaN\<close>.
\<close>

record stats =
  waterMl :: int
  urinate :: nat
  wake :: "nat option"
  foodCnt :: "nat option"
  exercised :: "bool option"
  glicemiaCount :: nat
  glicemiaLevels :: "string list"
  solCount :: nat
  solDuration :: "int option"
  events :: "event list"

text \<open>Truthiness of an optional string (\<open>e.level\<close>, \<open>e.duration\<close>): present and not
  empty.\<close>

definition truthy :: "string option \<Rightarrow> bool" where
  "truthy x = (case x of None \<Rightarrow> False | Some str \<Rightarrow> str \<noteq> [])"

text \<open>\<open>(s,e) => s + parseInt(e.duration)\<close>, where a \<open>NaN\<close> stays.\<close>

definition add_duration :: "(string \<Rightarrow> int option) \<Rightarrow> int option \<Rightarrow> event \<Rightarrow> int option" where
  "add_duration parseInt acc e =
     (case (acc, parseInt (the (duration e))) of
        (Some a, Some d) \<Rightarrow> Some (a + d)
      | _ \<Rightarrow> None)"

definition calcCycleStats ::
  "int \<Rightarrow> (string \<Rightarrow> int option) \<Rightarrow> event_store \<Rightarrow> cycle \<Rightarrow> error + stats" where
  "calcCycleStats now parseInt store c =
     (let hi = (case endTs c of None \<Rightarrow> now | Some e \<Rightarrow> e)
      in case eventsBetween store (startTs c) hi of
           Inl err \<Rightarrow> Inl err
         | Inr evs \<Rightarrow>
             (let water = foldl (\<lambda>acc e. acc + the (amount e)) 0
                            (filter (\<lambda>e. etype e = ''water'' \<and> amount e \<noteq> None) evs);
                  ur = length (filter (\<lambda>e. etype e = ''urinate'') evs);
                  wk = length (filter (\<lambda>e. etype e = ''wake'') evs);
                  food = length (filter (\<lambda>e. etype e = ''food'') evs);
                  ex = list_ex (\<lambda>e. etype e = ''exercise'') evs;
                  gc = length (filter (\<lambda>e. etype e = ''glicemia'') evs);
                  gl = map (\<lambda>e. the (level e))
                         (filter (\<lambda>e. etype e = ''glicemia'' \<and> truthy (level e)) evs);
                  sc = length (filter (\<lambda>e. etype e = ''sol'') evs);
                  sd = foldl (add_duration parseInt) (Some 0)
                         (filter (\<lambda>e. etype e = ''sol'' \<and> truthy (duration e)) evs)
              in Inr \<lparr>waterMl = water,
                      urinate = ur,
                      wake = (if ctype c = NIGHT then Some wk else None),
                      foodCnt = (if ctype c = DAY then Some food else None),
                      exercised = (if ctype c = DAY then Some ex else None),
                      glicemiaCount = gc,
                      glicemiaLevels = gl,
                      solCount = sc,
                      solDuration = sd,
                      events = evs\<rparr>))"

section \<open>Rendering: \<open>refreshCycles\<close>, \<open>renderCycle\<close>\<close>

text \<open>\<open>refreshCycles\<close> rebuilds the cycles from all events and stores them in
  \<open>state.cycles\<close>.\<close>

definition refreshCycles :: "int \<Rightarrow> (nat \<Rightarrow> string) \<Rightarrow> world \<Rightarrow> cycle list \<times> world" where
  "refreshCycles now uuid w =
     (let all = getAllEvents (events_store w);
          cs = buildCyclesFromEvents now uuid all
      in (cs, w\<lparr>cycles := cs\<rparr>))"

text \<open>
  \<open>renderCycle\<close> (lines 395-634) as far as it touches the state and can fail: it
  refreshes the cycles, clamps \<open>state.currentCycleIdx\<close>, and awaits \<open>calcCycleStats\<close> of
  the selected cycle, whose \<open>DataError\<close> it does not catch. The rest writes the page
  (the title, the card of the cycle, the list of its events); the elements it looks up
  are those of the page, and writing them changes neither the database nor \<open>state\<close>.
\<close>

definition renderCycle ::
  "int \<Rightarrow> (nat \<Rightarrow> string) \<Rightarrow> (string \<Rightarrow> int option) \<Rightarrow> world \<Rightarrow> (error + unit) \<times> world" where
  "renderCycle now uuid parseInt w =
     (case refreshCycles now uuid w of
        (cs, w1) \<Rightarrow>
          if length cs = 0 then (Inr (), w1)
          else
            (let i0 = currentCycleIdx w1;
                 i1 = (if i0 < 0 then 0 else i0);
                 i2 = (if i1 \<ge> int (length cs) then int (length cs) - 1 else i1);
                 w2 = w1\<lparr>currentCycleIdx := i2\<rparr>;
                 c = cs ! nat i2
             in case calcCycleStats now parseInt (events_store w2) c of
                  Inl e \<Rightarrow> (Inl e, w2)
                | Inr st \<Rightarrow> (Inr (), w2)))"

section \<open>Writing events: \<open>addEvent\<close>, \<open>updateEvent\<close>\<close>

text \<open>The first statement of both functions (lines 151-156 and 164-169):
  \<open>try { const w = await weatherForEventTs(ev.ts); if (w) ev.weather = w; } catch {}\<close>
  for the three sleep types.\<close>

definition attach_weather :: "env \<Rightarrow> world \<Rightarrow> event \<Rightarrow> event \<times> world" where
  "attach_weather env w ev =
     (if etype ev = ''sleep_start'' \<or> etype ev = ''sleep_end'' \<or> etype ev = ''wake'' then
        (case weatherForEventTs env w (ts ev) of
           (Inr (Some r), w1) \<Rightarrow> (ev\<lparr>weather := Some r\<rparr>, w1)
         | (Inr None, w1) \<Rightarrow> (ev, w1)
         | (Inl e, w1) \<Rightarrow> (ev, w1))
      else (ev, w))"

text \<open>
  \<open>addEvent\<close> puts \<open>{ id: uuid(), dateKey, ...ev }\<close>: the own properties of \<open>ev\<close> come
  last, so an \<open>id\<close> or a \<open>dateKey\<close> that \<open>ev\<close> has, with a value or without, replaces the
  one written before the spread. After the put it awaits \<open>renderCycle()\<close> (line 160),
  outside the \<open>try\<close>: an error of the re-render reaches the caller, with the event
  already stored. \<open>uuid()\<close> is called first for the id, then by the re-render for the
  cycles.
\<close>

definition addEvent :: "env \<Rightarrow> world \<Rightarrow> event \<Rightarrow> (error + unit) \<times> world" where
  "addEvent env w ev0 =
     (case attach_weather env w ev0 of
        (ev, w1) \<Rightarrow>
          (let dk = ymd (env_toISOString env) (ts ev);
               r = ev\<lparr>eid := (case eid ev of
                               Absent \<Rightarrow> Present (env_uuid env 0)
                             | Nullish \<Rightarrow> Nullish
                             | Present i \<Rightarrow> Present i),
                      dateKey := (case dateKey ev of
                                    Absent \<Rightarrow> Present dk
                                  | Nullish \<Rightarrow> Nullish
                                  | Present d \<Rightarrow> Present d)\<rparr>
           in case put_event (events_store w1) r of
                Inl e \<Rightarrow> (Inl e, w1)
              | Inr store \<Rightarrow>
                  renderCycle (env_now env) (\<lambda>n. env_uuid env (Suc n)) (env_parseInt env)
                    (w1\<lparr>events_store := store\<rparr>)))"

text \<open>\<open>updateEvent\<close> puts \<open>{ ...ev, dateKey }\<close>: the computed \<open>dateKey\<close> comes last. It does
  not render; its callers do, after it has returned.\<close>

definition updateEvent :: "env \<Rightarrow> world \<Rightarrow> event \<Rightarrow> (error + unit) \<times> world" where
  "updateEvent env w ev0 =
     (case attach_weather env w ev0 of
        (ev, w1) \<Rightarrow>
          (let dk = ymd (env_toISOString env) (ts ev);
               r = ev\<lparr>dateKey := Present dk\<rparr>
           in case put_event (events_store w1) r of
                Inl e \<Rightarrow> (Inl e, w1)
              | Inr store \<Rightarrow> (Inr (), w1\<lparr>events_store := store\<rparr>)))"

text \<open>The weather lookup gives no reading: it returns \<open>null\<close> or throws.\<close>

definition lookup_fails :: "env \<Rightarrow> world \<Rightarrow> int \<Rightarrow> bool" where
  "lookup_fails env w t =
     (case fst (weatherForEventTs env w t) of
        Inr (Some r) \<Rightarrow> False
      | Inr None \<Rightarrow> True
      | Inl e \<Rightarrow> True)"

text \<open>The id under which \<open>addEvent\<close> writes: the event's own, or else the first
  \<open>uuid()\<close>.\<close>

definition written_id :: "env \<Rightarrow> event \<Rightarrow> string" where
  "written_id env ev =
     (case eid ev of Absent \<Rightarrow> env_uuid env 0 | Nullish \<Rightarrow> env_uuid env 0 | Present i \<Rightarrow> i)"

text \<open>The span \<open>[startTs, endTs ?? now]\<close> of a cycle is a key range: \<open>startTs\<close> is set
  and not after the end.\<close>

definition span_ok :: "int \<Rightarrow> cycle \<Rightarrow> bool" where
  "span_ok now c =
     (case startTs c of
        None \<Rightarrow> False
      | Some lo \<Rightarrow> lo \<le> (case endTs c of None \<Rightarrow> now | Some e \<Rightarrow> e))"

section \<open>Properties of a cycle list\<close>

text \<open>Contiguous: of two adjacent cycles, the earlier one's \<open>endTs\<close> is the later one's
  \<open>startTs\<close>.\<close>

fun contiguous :: "cycle list \<Rightarrow> bool" where
  "contiguous (a # b # cs) = (endTs a = startTs b \<and> contiguous (b # cs))"
| "contiguous _ = True"

text \<open>The last cycle, and only the last, has \<open>endTs = null\<close>.\<close>

definition only_last_open :: "cycle list \<Rightarrow> bool" where
  "only_last_open cs =
     (cs \<noteq> [] \<and> endTs (last cs) = None \<and> list_all (\<lambda>c. endTs c \<noteq> None) (butlast cs))"

text \<open>Order of two timestamps that are both set.\<close>

fun le_ts :: "int option \<Rightarrow> int option \<Rightarrow> bool" where
  "le_ts (Some x) (Some y) = (x \<le> y)"
| "le_ts _ _ = False"

text \<open>Non-overlapping and in chronological order: a closed cycle does not end before
  it starts, and the next cycle does not start before it ends.\<close>

fun non_overlapping :: "cycle list \<Rightarrow> bool" where
  "non_overlapping (a # b # cs) =
     (le_ts (startTs a) (endTs a) \<and> le_ts (endTs a) (startTs b) \<and> non_overlapping (b # cs))"
| "non_overlapping _ = True"

text \<open>No \<open>sleep_end\<close> follows another \<open>sleep_end\<close> with no \<open>sleep_start\<close> between them;
  \<open>prevEnd\<close> says that the last sleep event seen was a \<open>sleep_end\<close>.\<close>

fun sleep_ends_apart :: "bool \<Rightarrow> event list \<Rightarrow> bool" where
  "sleep_ends_apart prevEnd [] = True"
| "sleep_ends_apart prevEnd (e # es) =
     (if etype e = ''sleep_end'' then \<not> prevEnd \<and> sleep_ends_apart True es
      else if etype e = ''sleep_start'' then sleep_ends_apart False es
      else sleep_ends_apart prevEnd es)"

definition no_repeated_sleep_end :: "event list \<Rightarrow> bool" where
  "no_repeated_sleep_end es = sleep_ends_apart False es"

text \<open>Invariants of the loop of \<open>buildCyclesFromEvents\<close>. \<open>contig_inv\<close>: the cycles
  pushed so far are contiguous and the last one ends where the open segment starts;
  while no cycle is pushed or the phase is NIGHT, a \<open>sleep_end\<close> cannot leave a gap.
  \<open>closed_inv\<close>: every cycle pushed in the loop is closed. \<open>order_inv\<close>: the cycles
  pushed are in order and no sleep event still to come is earlier than the open
  segment's start.\<close>

definition contig_inv :: "bool \<Rightarrow> builder \<Rightarrow> bool" where
  "contig_inv p b =
     (contiguous (b_cycles b) \<and> b_startTs b \<noteq> None \<and>
      (b_cycles b = [] \<or> endTs (last (b_cycles b)) = b_startTs b) \<and>
      (p \<or> b_phase b = NIGHT \<or> b_cycles b = []))"

definition closed_inv :: "builder \<Rightarrow> bool" where
  "closed_inv b = list_all (\<lambda>c. endTs c \<noteq> None) (b_cycles b)"

definition is_boundary :: "event \<Rightarrow> bool" where
  "is_boundary e = (etype e = ''sleep_start'' \<or> etype e = ''sleep_end'')"

definition order_inv :: "event list \<Rightarrow> builder \<Rightarrow> bool" where
  "order_inv es b =
     (non_overlapping (b_cycles b) \<and>
      (\<exists>s. b_startTs b = Some s \<and> (\<forall>e \<in> set es. is_boundary e \<longrightarrow> s \<le> ts e) \<and>
           (b_cycles b = [] \<or>
            (\<exists>a x. startTs (last (b_cycles b)) = Some a \<and>
                   endTs (last (b_cycles b)) = Some x \<and> a \<le> x \<and> x \<le> s))))"

section \<open>Example data\<close>

text \<open>A platform for the closed examples: no geolocation, a \<open>fetch\<close> that is rejected,
  a \<open>toISOString\<close> that is right at the time 0, the only one the examples use, the ids
  \<open>'uuid-1'\<close>, \<open>'uuid-11'\<close>, ..., and a \<open>parseInt\<close> that no example calls.\<close>

definition ex_env :: env where
  "ex_env =
     \<lparr>env_now = 0, env_uuid = (\<lambda>n. ''uuid-'' @ replicate (Suc n) (CHR ''1'')),
      env_toISOString = (\<lambda>t. ''1970-01-01T00:00:00.000Z''),
      env_geolocation = NoGeolocation,
      env_fetch = (\<lambda>q. Rejected),
      env_parseInt = (\<lambda>str. None)\<rparr>"

text \<open>The same platform with a position (latitude 1.000, longitude 2.000).\<close>

definition ex_env_located :: env where
  "ex_env_located = ex_env\<lparr>env_geolocation := Position 1000 2000\<rparr>"

definition ex_world :: world where
  "ex_world =
     \<lparr>events_store = [], weather_cache = Map.empty, fetch_log = [],
      currentCycleIdx = 0, cycles = []\<rparr>"

text \<open>A cached record with three empty arrays, as \<open>getDailyWeatherArrays\<close> stores it
  for an answer without \<open>hourly\<close> data.\<close>

definition ex_empty_rec :: weather_rec where
  "ex_empty_rec =
     \<lparr>w_key = (''1970-01-01'', 1000, 2000), w_dateKey = ''1970-01-01'',
      w_lat = 1000, w_lon = 2000,
      hours = Some [], temps = Some [], hums = Some [],
      minTemp = PosInf, maxTemp = NegInf, minHum = PosInf, maxHum = NegInf,
      fetchedAt = 0\<rparr>"

definition ex_world_cached :: world where
  "ex_world_cached =
     \<lparr>events_store = [],
      weather_cache = [(''1970-01-01'', 1000, 2000) \<mapsto> ex_empty_rec],
      fetch_log = [], currentCycleIdx = 0, cycles = []\<rparr>"

text \<open>A record of three hours; the humidity of the third hour is missing.\<close>

definition ex_rec :: weather_rec where
  "ex_rec =
     \<lparr>w_key = (''1970-01-01'', 1000, 2000), w_dateKey = ''1970-01-01'',
      w_lat = 1000, w_lon = 2000,
      hours = Some [0, 3600000, 7200000],
      temps = Some [Some 20, Some 21, Some 22],
      hums = Some [Some 50, Some 55, None],
      minTemp = Fin 20, maxTemp = Fin 22, minHum = Fin 0, maxHum = Fin 55,
      fetchedAt = 0\<rparr>"

text \<open>A stored \<open>sleep_start\<close> event that carries a weather reading.\<close>

definition ex_sleep_with_weather :: event where
  "ex_sleep_with_weather =
     (mk_event ''sleep_start'' 0)
       \<lparr>eid := Present ''e1'', dateKey := Present ''1970-01-01'',
        weather := Some \<lparr>temp = 20, hum = 50, lat = 1000, lon = 2000\<rparr>\<rparr>"

text \<open>A store of three events and a closed NIGHT cycle from 0 to 100 over it.\<close>

definition ex_store :: event_store where
  "ex_store =
     [(''a'', (mk_event ''wake'' 10)\<lparr>eid := Present ''a''\<rparr>),
      (''b'', (mk_event ''exercise'' 20)\<lparr>eid := Present ''b''\<rparr>),
      (''c'', (mk_event ''wake'' 500)\<lparr>eid := Present ''c''\<rparr>)]"

definition ex_night :: cycle where
  "ex_night =
     \<lparr>cid = ''n1'', ctype = NIGHT, startTs = Some 0, endTs = Some 100,
      startEvent = None, endEvent = None\<rparr>"

section \<open>The cycle builder: proofs\<close>

lemma contiguous_snoc:
  "contiguous (cs @ [c]) = (contiguous cs \<and> (cs = [] \<or> endTs (last cs) = startTs c))"
  by (induction cs rule: contiguous.induct) auto

lemma le_ts_iff: "le_ts a b = (\<exists>x y. a = Some x \<and> b = Some y \<and> x \<le> y)"
  by (cases a; cases b) auto

lemma non_overlapping_snoc:
  "non_overlapping (cs @ [c]) =
     (non_overlapping cs \<and>
      (cs = [] \<or>
       (le_ts (startTs (last cs)) (endTs (last cs)) \<and> le_ts (endTs (last cs)) (startTs c))))"
  by (induction cs rule: non_overlapping.induct) auto

text \<open>One step of the loop keeps \<open>contig_inv\<close>, provided the event is not a \<open>sleep_end\<close>
  right after a \<open>sleep_end\<close>.\<close>

lemma contig_inv_foldl:
  "contig_inv p b \<Longrightarrow> sleep_ends_apart p es \<Longrightarrow>
   \<exists>q. contig_inv q (foldl (scan_event uuid) b es)"
proof (induction es arbitrary: p b)
  case Nil
  then show ?case by auto
next
  case (Cons e es)
  let ?p' = "if etype e = ''sleep_end'' then True
             else if etype e = ''sleep_start'' then False else p"
  have "contig_inv ?p' (scan_event uuid b e)"
    using Cons.prems
    by (auto simp: contig_inv_def scan_event_def push_cycle_def contiguous_snoc)
  moreover have "sleep_ends_apart ?p' es"
    using Cons.prems(2) by (auto split: if_splits)
  ultimately show ?case
    using Cons.IH by simp
qed

lemma closed_inv_step: "closed_inv b \<Longrightarrow> closed_inv (scan_event uuid b e)"
  by (auto simp: closed_inv_def scan_event_def push_cycle_def)

lemma closed_inv_foldl: "closed_inv b \<Longrightarrow> closed_inv (foldl (scan_event uuid) b es)"
  by (induction es arbitrary: b) (auto simp: closed_inv_step)

lemma order_inv_foldl:
  "order_inv es b \<Longrightarrow> sorted (map ts es) \<Longrightarrow> order_inv [] (foldl (scan_event uuid) b es)"
proof (induction es arbitrary: b)
  case Nil
  then show ?case by simp
next
  case (Cons e es)
  have "order_inv es (scan_event uuid b e)"
    using Cons.prems
    by (auto simp: order_inv_def scan_event_def push_cycle_def non_overlapping_snoc
        le_ts_iff is_boundary_def)
  then show ?case
    using Cons.IH Cons.prems(2) by simp
qed

text \<open>In a list sorted by \<open>ts\<close>, the first event that satisfies \<open>P\<close> is not later than
  any other one that does.\<close>

lemma find_first_le:
  "find P es = Some x \<Longrightarrow> sorted (map ts es) \<Longrightarrow> e \<in> set es \<Longrightarrow> P e \<Longrightarrow> ts x \<le> ts e"
  by (induction es) (auto split: if_splits)

lemma seed_order:
  assumes "seed es = Some b" and "sorted (map ts es)"
  shows "order_inv es b"
proof -
  let ?fs = "find (\<lambda>e. etype e = ''sleep_start'') es"
  let ?fe = "find (\<lambda>e. etype e = ''sleep_end'') es"
  have a: "ts x \<le> ts e" if "?fs = Some x" "e \<in> set es" "etype e = ''sleep_start''" for x e
    using find_first_le[of "\<lambda>e. etype e = ''sleep_start''" es x e] that assms(2) by simp
  have b: "ts x \<le> ts e" if "?fe = Some x" "e \<in> set es" "etype e = ''sleep_end''" for x e
    using find_first_le[of "\<lambda>e. etype e = ''sleep_end''" es x e] that assms(2) by simp
  have c: "etype e \<noteq> ''sleep_start''" if "?fs = None" "e \<in> set es" for e
    using that by (auto simp: find_None_iff)
  have d: "etype e \<noteq> ''sleep_end''" if "?fe = None" "e \<in> set es" for e
    using that by (auto simp: find_None_iff)
  show ?thesis
  proof (cases ?fs)
    case None
    note fsN = this
    show ?thesis
    proof (cases ?fe)
      case None
      with fsN assms(1) c d show ?thesis
        by (auto simp: seed_def order_inv_def is_boundary_def split: list.splits)
    next
      case (Some fe)
      with fsN assms(1) b c show ?thesis
        by (auto simp: seed_def order_inv_def is_boundary_def)
    qed
  next
    case (Some fs)
    note fsS = this
    show ?thesis
    proof (cases ?fe)
      case None
      with fsS assms(1) a d show ?thesis
        by (auto simp: seed_def order_inv_def is_boundary_def)
    next
      case (Some fe)
      have a2: "ts fs \<le> ts e"
        if "ts fs < ts fe" "e \<in> set es" "etype e = ''sleep_end''" for e
        using b[OF Some that(2,3)] that(1) by linarith
      have b2: "ts fe \<le> ts e"
        if "\<not> ts fs < ts fe" "e \<in> set es" "etype e = ''sleep_start''" for e
        using a[OF fsS that(2,3)] that(1) by linarith
      show ?thesis
        using fsS Some assms(1) a[OF fsS] b[OF Some] a2 b2
        by (auto simp: seed_def order_inv_def is_boundary_def Let_def split: if_splits)
    qed
  qed
qed

lemma seed_contig: "seed es = Some b \<Longrightarrow> contig_inv False b \<and> closed_inv b"
  by (auto simp: seed_def contig_inv_def closed_inv_def Let_def split: if_splits list.splits)

lemmas build_defs =
  buildCyclesFromEvents_def seed_def scan_event_def push_cycle_def mk_event_def

text \<open>
  C1 (amended). For events in ascending order of \<open>ts\<close>, the cycle list is not empty,
  its last cycle and only its last has \<open>endTs = null\<close>, and the cycles are in
  chronological order and do not overlap. They are contiguous (each \<open>endTs\<close> is the
  next \<open>startTs\<close>) when no \<open>sleep_end\<close> follows another \<open>sleep_end\<close> without a
  \<open>sleep_start\<close> between them: such a \<open>sleep_end\<close> restarts the open DAY segment at its
  own time and leaves a gap.
\<close>

theorem buildCycles_partition:
  assumes "sorted (map ts evs)"
  shows "only_last_open (buildCyclesFromEvents now uuid evs) \<and>
         non_overlapping (buildCyclesFromEvents now uuid evs) \<and>
         (no_repeated_sleep_end evs \<longrightarrow> contiguous (buildCyclesFromEvents now uuid evs))"
proof (cases "seed evs")
  case None
  then show ?thesis
    by (simp add: buildCyclesFromEvents_def only_last_open_def)
next
  case (Some b0)
  let ?b = "foldl (scan_event uuid) b0 evs"
  have res: "buildCyclesFromEvents now uuid evs =
      push_cycle uuid (b_cycles ?b) (b_phase ?b) (b_startTs ?b) None (b_startEventRef ?b) None"
    using Some by (simp add: buildCyclesFromEvents_def Let_def)
  have "closed_inv ?b"
    using seed_contig[OF Some] closed_inv_foldl by blast
  then have 1: "only_last_open (buildCyclesFromEvents now uuid evs)"
    by (simp add: res only_last_open_def closed_inv_def push_cycle_def)
  have "order_inv [] ?b"
    using order_inv_foldl[OF seed_order[OF Some assms] assms] .
  then have 2: "non_overlapping (buildCyclesFromEvents now uuid evs)"
    by (auto simp: res order_inv_def push_cycle_def non_overlapping_snoc le_ts_iff)
  have 3: "contiguous (buildCyclesFromEvents now uuid evs)" if "no_repeated_sleep_end evs"
  proof -
    have "contig_inv False b0"
      using seed_contig[OF Some] by simp
    from contig_inv_foldl[OF this that[unfolded no_repeated_sleep_end_def]]
    obtain q where "contig_inv q ?b"
      by blast
    then show ?thesis
      by (auto simp: res contig_inv_def push_cycle_def contiguous_snoc)
  qed
  from 1 2 3 show ?thesis by blast
qed

theorem buildCycles_partition_witness:
  "sorted (map ts [mk_event ''sleep_end'' 1, mk_event ''sleep_start'' 2,
                    mk_event ''wake'' 3, mk_event ''sleep_end'' 4]) \<and>
   no_repeated_sleep_end [mk_event ''sleep_end'' 1, mk_event ''sleep_start'' 2,
                    mk_event ''wake'' 3, mk_event ''sleep_end'' 4] \<and>
   only_last_open (buildCyclesFromEvents 0 (\<lambda>n. ''u'')
     [mk_event ''sleep_end'' 1, mk_event ''sleep_start'' 2,
      mk_event ''wake'' 3, mk_event ''sleep_end'' 4]) \<and>
   non_overlapping (buildCyclesFromEvents 0 (\<lambda>n. ''u'')
     [mk_event ''sleep_end'' 1, mk_event ''sleep_start'' 2,
      mk_event ''wake'' 3, mk_event ''sleep_end'' 4]) \<and>
   contiguous (buildCyclesFromEvents 0 (\<lambda>n. ''u'')
     [mk_event ''sleep_end'' 1, mk_event ''sleep_start'' 2,
      mk_event ''wake'' 3, mk_event ''sleep_end'' 4])"
proof -
  let ?evs = "[mk_event ''sleep_end'' 1, mk_event ''sleep_start'' 2,
               mk_event ''wake'' 3, mk_event ''sleep_end'' 4]"
  have s: "sorted (map ts ?evs)"
    by (simp add: mk_event_def)
  have n: "no_repeated_sleep_end ?evs"
    by (simp add: no_repeated_sleep_end_def mk_event_def)
  from buildCycles_partition[OF s, of 0 "\<lambda>n. ''u''"] s n show ?thesis
    by blast
qed

text \<open>C1 as stated fails: after NIGHT 2-3 a second \<open>sleep_end\<close> at 4 restarts the DAY
  segment, and the next cycle starts at 4, not at 3.\<close>

theorem buildCycles_contiguous_counterexample:
  "sorted (map ts [mk_event ''sleep_end'' 1, mk_event ''sleep_start'' 2,
                    mk_event ''sleep_end'' 3, mk_event ''sleep_end'' 4]) \<and>
   map (\<lambda>c. (ctype c, startTs c, endTs c))
     (buildCyclesFromEvents 0 (\<lambda>n. ''u'')
        [mk_event ''sleep_end'' 1, mk_event ''sleep_start'' 2,
         mk_event ''sleep_end'' 3, mk_event ''sleep_end'' 4]) =
     [(DAY, Some 1, Some 2), (NIGHT, Some 2, Some 3), (DAY, Some 4, None)] \<and>
   \<not> contiguous
     (buildCyclesFromEvents 0 (\<lambda>n. ''u'')
        [mk_event ''sleep_end'' 1, mk_event ''sleep_start'' 2,
         mk_event ''sleep_end'' 3, mk_event ''sleep_end'' 4])"
  by (simp add: build_defs)

text \<open>
  C2 (the code differs). For \<open>sleep_start@T1, sleep_end@T2, sleep_start@T3\<close> the seed
  takes the first \<open>sleep_start\<close> as the start of a NIGHT segment and the loop then meets
  this same event in phase NIGHT, so it pushes a NIGHT cycle from T1 to T1 with no end
  event before the three cycles of the claim: the result has four cycles.
\<close>

theorem buildCycles_start_end_start:
  assumes "T1 < T2" and "T2 < T3"
  shows "buildCyclesFromEvents now uuid
     [mk_event ''sleep_start'' T1, mk_event ''sleep_end'' T2, mk_event ''sleep_start'' T3] =
   [\<lparr>cid = uuid 0, ctype = NIGHT, startTs = Some T1, endTs = Some T1,
     startEvent = Some (mk_event ''sleep_start'' T1), endEvent = None\<rparr>,
    \<lparr>cid = uuid 1, ctype = NIGHT, startTs = Some T1, endTs = Some T2,
     startEvent = Some (mk_event ''sleep_start'' T1),
     endEvent = Some (mk_event ''sleep_end'' T2)\<rparr>,
    \<lparr>cid = uuid 2, ctype = DAY, startTs = Some T2, endTs = Some T3,
     startEvent = Some (mk_event ''sleep_end'' T2),
     endEvent = Some (mk_event ''sleep_start'' T3)\<rparr>,
    \<lparr>cid = uuid 3, ctype = NIGHT, startTs = Some T3, endTs = None,
     startEvent = Some (mk_event ''sleep_start'' T3), endEvent = None\<rparr>]"
  using assms by (simp add: build_defs numeral_2_eq_2 numeral_3_eq_3)

theorem buildCycles_start_end_start_witness:
  "(10::int) < 20 \<and> (20::int) < 30 \<and>
   map (\<lambda>c. (ctype c, startTs c, endTs c))
     (buildCyclesFromEvents 0 (\<lambda>n. ''u'')
        [mk_event ''sleep_start'' 10, mk_event ''sleep_end'' 20, mk_event ''sleep_start'' 30]) =
   [(NIGHT, Some 10, Some 10), (NIGHT, Some 10, Some 20), (DAY, Some 20, Some 30),
    (NIGHT, Some 30, None)] \<and>
   length (buildCyclesFromEvents 0 (\<lambda>n. ''u'')
        [mk_event ''sleep_start'' 10, mk_event ''sleep_end'' 20, mk_event ''sleep_start'' 30]) = 4"
  using buildCycles_start_end_start[of 10 20 30 0 "\<lambda>n. ''u''"] by simp

text \<open>
  C3 (the code differs). For \<open>sleep_start@T1, sleep_start@T2\<close> the first NIGHT cycle
  of the result is the one from T1 to T1 that the seed event itself closes; the NIGHT
  cycle from T1 to T2 with no end event is the second, and the open NIGHT cycle from
  T2 the third.
\<close>

theorem buildCycles_start_start:
  assumes "T1 < T2"
  shows "buildCyclesFromEvents now uuid
     [mk_event ''sleep_start'' T1, mk_event ''sleep_start'' T2] =
   [\<lparr>cid = uuid 0, ctype = NIGHT, startTs = Some T1, endTs = Some T1,
     startEvent = Some (mk_event ''sleep_start'' T1), endEvent = None\<rparr>,
    \<lparr>cid = uuid 1, ctype = NIGHT, startTs = Some T1, endTs = Some T2,
     startEvent = Some (mk_event ''sleep_start'' T1), endEvent = None\<rparr>,
    \<lparr>cid = uuid 2, ctype = NIGHT, startTs = Some T2, endTs = None,
     startEvent = Some (mk_event ''sleep_start'' T2), endEvent = None\<rparr>]"
  using assms by (simp add: build_defs numeral_2_eq_2)

theorem buildCycles_start_start_witness:
  "(10::int) < 20 \<and>
   map (\<lambda>c. (ctype c, startTs c, endTs c, endEvent c))
     (buildCyclesFromEvents 0 (\<lambda>n. ''u'')
        [mk_event ''sleep_start'' 10, mk_event ''sleep_start'' 20]) =
   [(NIGHT, Some 10, Some 10, None), (NIGHT, Some 10, Some 20, None),
    (NIGHT, Some 20, None, None)]"
  using buildCycles_start_start[of 10 20 0 "\<lambda>n. ''u''"] by simp

text \<open>
  C7. For the empty event list the result is exactly one cycle: a DAY cycle with the
  constant id \<open>'virtual-now'\<close>, \<open>startTs\<close> the current time, \<open>endTs = null\<close> and no start
  or end event.
\<close>

theorem buildCycles_empty:
  "buildCyclesFromEvents now uuid [] =
   [\<lparr>cid = ''virtual-now'', ctype = DAY, startTs = Some now, endTs = None,
     startEvent = None, endEvent = None\<rparr>]"
  by (simp add: buildCyclesFromEvents_def seed_def)

section \<open>Nearest weather sample: proofs\<close>

text \<open>The invariant of the loop after the indices below \<open>n\<close>: \<open>bestIdx\<close> is the least
  index among them with the least distance, and \<open>bestDiff\<close> is that distance.\<close>

lemma nearest_loop:
  "0 < n \<Longrightarrow> n \<le> length hs \<Longrightarrow>
   (case foldl (nearest_step hs t) (0, \<bar>hs ! 0 - t\<bar>) [1..<n] of
      (k, d) \<Rightarrow> k < n \<and> d = \<bar>hs ! k - t\<bar> \<and> (\<forall>j<n. d \<le> \<bar>hs ! j - t\<bar>) \<and>
                (\<forall>j<k. d < \<bar>hs ! j - t\<bar>))"
proof (induction n)
  case 0
  then show ?case by simp
next
  case (Suc n)
  show ?case
  proof (cases "n = 0")
    case True
    then show ?thesis by simp
  next
    case False
    then have n: "0 < n" "n \<le> length hs"
      using Suc.prems by simp_all
    obtain k d where kd: "foldl (nearest_step hs t) (0, \<bar>hs ! 0 - t\<bar>) [1..<n] = (k, d)"
      by (cases "foldl (nearest_step hs t) (0, \<bar>hs ! 0 - t\<bar>) [1..<n]")
    from Suc.IH[OF n]
    have ih: "k < n \<and> d = \<bar>hs ! k - t\<bar> \<and> (\<forall>j<n. d \<le> \<bar>hs ! j - t\<bar>) \<and>
              (\<forall>j<k. d < \<bar>hs ! j - t\<bar>)"
      unfolding kd prod.case .
    have "[1..<Suc n] = [1..<n] @ [n]"
      using n(1) by simp
    then have step: "foldl (nearest_step hs t) (0, \<bar>hs ! 0 - t\<bar>) [1..<Suc n] =
        nearest_step hs t (k, d) n"
      by (simp only: foldl_append kd foldl.simps)
    show ?thesis
    proof (cases "\<bar>hs ! n - t\<bar> < d")
      case True
      have eq: "nearest_step hs t (k, d) n = (n, \<bar>hs ! n - t\<bar>)"
        using True by (simp add: nearest_step_def)
      have lt: "\<bar>hs ! n - t\<bar> < \<bar>hs ! j - t\<bar>" if "j < n" for j
      proof -
        from ih that have "d \<le> \<bar>hs ! j - t\<bar>" by blast
        with True show ?thesis by (rule less_le_trans)
      qed
      have le: "\<bar>hs ! n - t\<bar> \<le> \<bar>hs ! j - t\<bar>" if "j < Suc n" for j
      proof (cases "j = n")
        case True
        then show ?thesis by simp
      next
        case False
        with that have "j < n" by simp
        from lt[OF this] show ?thesis by (rule less_imp_le)
      qed
      have "n < Suc n \<and> \<bar>hs ! n - t\<bar> = \<bar>hs ! n - t\<bar> \<and>
            (\<forall>j<Suc n. \<bar>hs ! n - t\<bar> \<le> \<bar>hs ! j - t\<bar>) \<and>
            (\<forall>j<n. \<bar>hs ! n - t\<bar> < \<bar>hs ! j - t\<bar>)"
        using lt le by blast
      then show ?thesis
        unfolding step eq prod.case .
    next
      case False
      have eq: "nearest_step hs t (k, d) n = (k, d)"
        using False by (simp add: nearest_step_def)
      have le: "d \<le> \<bar>hs ! j - t\<bar>" if "j < Suc n" for j
      proof (cases "j = n")
        case True
        with False show ?thesis by simp
      next
        case False
        with that have "j < n" by simp
        with ih show ?thesis by blast
      qed
      have "k < Suc n \<and> d = \<bar>hs ! k - t\<bar> \<and>
            (\<forall>j<Suc n. d \<le> \<bar>hs ! j - t\<bar>) \<and> (\<forall>j<k. d < \<bar>hs ! j - t\<bar>)"
        using ih le less_SucI by blast
      then show ?thesis
        unfolding step eq prod.case .
    qed
  qed
qed

lemma nearest_index_least:
  assumes "hs \<noteq> []"
  shows "nearest_index hs t < length hs \<and>
         (\<forall>j<length hs. \<bar>hs ! nearest_index hs t - t\<bar> \<le> \<bar>hs ! j - t\<bar>) \<and>
         (\<forall>j<nearest_index hs t. \<bar>hs ! nearest_index hs t - t\<bar> < \<bar>hs ! j - t\<bar>)"
proof -
  have len: "0 < length hs"
    using assms by simp
  obtain k d where kd:
    "foldl (nearest_step hs t) (0, \<bar>hs ! 0 - t\<bar>) [1..<length hs] = (k, d)"
    by (cases "foldl (nearest_step hs t) (0, \<bar>hs ! 0 - t\<bar>) [1..<length hs]")
  have k: "nearest_index hs t = k"
    by (simp only: nearest_index_def kd fst_conv)
  from nearest_loop[OF len order_refl, of t]
  have "k < length hs \<and> d = \<bar>hs ! k - t\<bar> \<and> (\<forall>j<length hs. d \<le> \<bar>hs ! j - t\<bar>) \<and>
        (\<forall>j<k. d < \<bar>hs ! j - t\<bar>)"
    unfolding kd prod.case .
  then show ?thesis
    unfolding k by blast
qed

text \<open>A record that \<open>getDailyWeatherArrays\<close> returns has its three arrays.\<close>

lemma getDailyWeatherArrays_returns_arrays:
  "fst (getDailyWeatherArrays env w d la lo) = Inr r \<Longrightarrow>
   hours r \<noteq> None \<and> temps r \<noteq> None \<and> hums r \<noteq> None"
  by (auto simp: getDailyWeatherArrays_def Let_def has_arrays_def
      split: if_splits fetch_result.splits option.splits)

text \<open>
  C10. For every weather record and every timestamp \<open>t\<close>: with no hours the result is
  \<open>null\<close>. With hours, the sample selected is the one at the lowest index \<open>k\<close> that
  minimises \<open>|hours[k] - t|\<close> (every index has a distance at least as large, every lower
  index a larger one): the result is \<open>{temp, hum}\<close> exactly when \<open>temps[k]\<close> and \<open>hums[k]\<close>
  are these two numbers, and it is \<open>null\<close> exactly when \<open>temps[k]\<close> or \<open>hums[k]\<close> is not a
  number (\<open>null\<close>, or beyond the end of the array). Only an object that lacks the
  \<open>temps\<close> or the \<open>hums\<close> array, which is no weather record, makes the read throw.
\<close>

theorem nearestWeatherAtTs_selects_nearest:
  "nearestWeatherAtTs None t = Inr None \<and>
   (hours r = None \<or> hours r = Some [] \<longrightarrow> nearestWeatherAtTs (Some r) t = Inr None) \<and>
   (\<forall>hs. hours r = Some hs \<and> hs \<noteq> [] \<longrightarrow>
      (\<exists>k<length hs.
         (\<forall>j<length hs. \<bar>hs ! k - t\<bar> \<le> \<bar>hs ! j - t\<bar>) \<and>
         (\<forall>j<k. \<bar>hs ! k - t\<bar> < \<bar>hs ! j - t\<bar>) \<and>
         (\<forall>tv hv.
            (nearestWeatherAtTs (Some r) t = Inr (Some (tv, hv))) =
            (\<exists>tps hms. temps r = Some tps \<and> hums r = Some hms \<and>
               k < length tps \<and> tps ! k = Some tv \<and>
               k < length hms \<and> hms ! k = Some hv)) \<and>
         ((nearestWeatherAtTs (Some r) t = Inr None) =
            (\<exists>tps hms. temps r = Some tps \<and> hums r = Some hms \<and>
               \<not> (k < length tps \<and> tps ! k \<noteq> None \<and>
                  k < length hms \<and> hms ! k \<noteq> None))) \<and>
         ((nearestWeatherAtTs (Some r) t = Inl TypeError) =
            (temps r = None \<or> hums r = None))))"
proof (intro conjI allI impI)
  show "nearestWeatherAtTs None t = Inr None"
    by (simp add: nearestWeatherAtTs_def)
next
  assume "hours r = None \<or> hours r = Some []"
  then show "nearestWeatherAtTs (Some r) t = Inr None"
    by (auto simp: nearestWeatherAtTs_def)
next
  fix hs
  assume h: "hours r = Some hs \<and> hs \<noteq> []"
  define k where "k = nearest_index hs t"
  have res: "nearestWeatherAtTs (Some r) t =
      (case temps r of
         None \<Rightarrow> Inl TypeError
       | Some tps \<Rightarrow>
           (case hums r of
              None \<Rightarrow> Inl TypeError
            | Some hms \<Rightarrow>
                (case (at_index tps k, at_index hms k) of
                   (Some tv, Some hv) \<Rightarrow> Inr (Some (tv, hv))
                 | _ \<Rightarrow> Inr None)))"
    unfolding k_def using h by (simp add: nearestWeatherAtTs_def Let_def)
  have val: "\<forall>tv hv.
      (nearestWeatherAtTs (Some r) t = Inr (Some (tv, hv))) =
      (\<exists>tps hms. temps r = Some tps \<and> hums r = Some hms \<and>
         k < length tps \<and> tps ! k = Some tv \<and> k < length hms \<and> hms ! k = Some hv)"
    unfolding res
    by (cases "temps r"; cases "hums r") (auto simp: at_index_def split: option.splits)
  have null: "(nearestWeatherAtTs (Some r) t = Inr None) =
      (\<exists>tps hms. temps r = Some tps \<and> hums r = Some hms \<and>
         \<not> (k < length tps \<and> tps ! k \<noteq> None \<and> k < length hms \<and> hms ! k \<noteq> None))"
    unfolding res
    by (cases "temps r"; cases "hums r") (auto simp: at_index_def split: option.splits)
  have err: "(nearestWeatherAtTs (Some r) t = Inl TypeError) = (temps r = None \<or> hums r = None)"
    unfolding res
    by (cases "temps r"; cases "hums r") (auto split: option.splits)
  from nearest_index_least[of hs t] h
  have near: "k < length hs" "\<forall>j<length hs. \<bar>hs ! k - t\<bar> \<le> \<bar>hs ! j - t\<bar>"
    "\<forall>j<k. \<bar>hs ! k - t\<bar> < \<bar>hs ! j - t\<bar>"
    unfolding k_def by simp_all
  show "\<exists>k<length hs.
         (\<forall>j<length hs. \<bar>hs ! k - t\<bar> \<le> \<bar>hs ! j - t\<bar>) \<and>
         (\<forall>j<k. \<bar>hs ! k - t\<bar> < \<bar>hs ! j - t\<bar>) \<and>
         (\<forall>tv hv.
            (nearestWeatherAtTs (Some r) t = Inr (Some (tv, hv))) =
            (\<exists>tps hms. temps r = Some tps \<and> hums r = Some hms \<and>
               k < length tps \<and> tps ! k = Some tv \<and>
               k < length hms \<and> hms ! k = Some hv)) \<and>
         ((nearestWeatherAtTs (Some r) t = Inr None) =
            (\<exists>tps hms. temps r = Some tps \<and> hums r = Some hms \<and>
               \<not> (k < length tps \<and> tps ! k \<noteq> None \<and>
                  k < length hms \<and> hms ! k \<noteq> None))) \<and>
         ((nearestWeatherAtTs (Some r) t = Inl TypeError) =
            (temps r = None \<or> hums r = None))"
    using near val null err by (intro exI[of _ k] conjI)
qed

text \<open>On the record of three hours: at \<open>t = 3000000\<close> the nearest hour is the second and
  the result its sample; at \<open>t = 1800000\<close> the first two hours are equally near and the
  first wins; at \<open>t = 7000000\<close> the nearest hour is the third, whose humidity is
  \<open>null\<close>.\<close>

theorem nearestWeatherAtTs_selects_nearest_witness:
  "hours ex_rec = Some [0, 3600000, 7200000] \<and> [0, 3600000, 7200000::int] \<noteq> [] \<and>
   (\<exists>k<length [0, 3600000, 7200000::int].
      (\<forall>j<length [0, 3600000, 7200000::int].
         \<bar>[0, 3600000, 7200000] ! k - 3000000\<bar> \<le> \<bar>[0, 3600000, 7200000::int] ! j - 3000000\<bar>) \<and>
      (\<forall>j<k. \<bar>[0, 3600000, 7200000] ! k - 3000000\<bar> < \<bar>[0, 3600000, 7200000::int] ! j - 3000000\<bar>) \<and>
      (\<forall>tv hv.
         (nearestWeatherAtTs (Some ex_rec) 3000000 = Inr (Some (tv, hv))) =
         (\<exists>tps hms. temps ex_rec = Some tps \<and> hums ex_rec = Some hms \<and>
            k < length tps \<and> tps ! k = Some tv \<and>
            k < length hms \<and> hms ! k = Some hv)) \<and>
      ((nearestWeatherAtTs (Some ex_rec) 3000000 = Inr None) =
         (\<exists>tps hms. temps ex_rec = Some tps \<and> hums ex_rec = Some hms \<and>
            \<not> (k < length tps \<and> tps ! k \<noteq> None \<and>
               k < length hms \<and> hms ! k \<noteq> None))) \<and>
      ((nearestWeatherAtTs (Some ex_rec) 3000000 = Inl TypeError) =
         (temps ex_rec = None \<or> hums ex_rec = None))) \<and>
   nearestWeatherAtTs (Some ex_rec) 3000000 = Inr (Some (21, 55)) \<and>
   nearestWeatherAtTs (Some ex_rec) 1800000 = Inr (Some (20, 50)) \<and>
   nearestWeatherAtTs (Some ex_rec) 7000000 = Inr None \<and>
   nearestWeatherAtTs (Some (ex_rec\<lparr>temps := None\<rparr>)) 3000000 = Inl TypeError"
proof -
  have hs: "hours ex_rec = Some [0, 3600000, 7200000]"
    by (simp add: ex_rec_def)
  have ne: "hours ex_rec = Some [0, 3600000, 7200000] \<and> [0, 3600000, 7200000::int] \<noteq> []"
    using hs by simp
  note inst = nearestWeatherAtTs_selects_nearest[of 3000000 ex_rec]
  note sel = inst[THEN conjunct2, THEN conjunct2, rule_format, OF ne]
  have a: "nearestWeatherAtTs (Some ex_rec) 3000000 = Inr (Some (21, 55))"
    by (simp add: nearestWeatherAtTs_def ex_rec_def nearest_index_def nearest_step_def
        at_index_def upt_rec[of 1] upt_rec[of 2])
  have b: "nearestWeatherAtTs (Some ex_rec) 1800000 = Inr (Some (20, 50))"
    by (simp add: nearestWeatherAtTs_def ex_rec_def nearest_index_def nearest_step_def
        at_index_def upt_rec[of 1] upt_rec[of 2])
  have c: "nearestWeatherAtTs (Some ex_rec) 7000000 = Inr None"
    by (simp add: nearestWeatherAtTs_def ex_rec_def nearest_index_def nearest_step_def
        at_index_def upt_rec[of 1] upt_rec[of 2])
  have d: "nearestWeatherAtTs (Some (ex_rec\<lparr>temps := None\<rparr>)) 3000000 = Inl TypeError"
    by (simp add: nearestWeatherAtTs_def ex_rec_def)
  from ne sel a b c d show ?thesis
    by (intro conjI) simp_all
qed

section \<open>Cycle statistics: proofs\<close>

lemma count_between:
  "length (filter P (sort_key ts (filter Q (index_by_ts store)))) =
   length (filter (\<lambda>e. P e \<and> Q e) (map snd store))"
proof -
  have "length (filter P (sort_key ts (filter Q (index_by_ts store)))) =
        length (filter P (filter Q (index_by_ts store)))"
    by (simp add: filter_sort)
  also have "\<dots> = length (filter ((\<lambda>e. P e \<and> Q e) \<circ> snd)
                         (sort_key (\<lambda>(k, e). (ts e, k)) store))"
    by (simp add: index_by_ts_def filter_map conj_commute comp_def)
  also have "\<dots> = length (filter ((\<lambda>e. P e \<and> Q e) \<circ> snd) store)"
    by (simp add: filter_sort)
  also have "\<dots> = length (filter (\<lambda>e. P e \<and> Q e) (map snd store))"
    by (simp add: filter_map)
  finally show ?thesis .
qed

lemma set_between:
  "set (sort_key ts (filter Q (index_by_ts store))) = {e \<in> snd ` set store. Q e}"
  by (auto simp: index_by_ts_def)

lemma getAllEvents_sorted: "sorted (map ts (getAllEvents store))"
  by (simp add: getAllEvents_def)

text \<open>
  C9. For every cycle, with the span \<open>[startTs, endTs ?? now]\<close>: when the span is a
  key range (\<open>startTs\<close> set and not after the end), \<open>calcCycleStats\<close> returns statistics
  in which \<open>wake\<close> is the number of \<open>wake\<close> events of the span when the cycle is NIGHT
  and undefined when it is DAY, \<open>foodCnt\<close> is the number of \<open>food\<close> events of the span
  when the cycle is DAY and undefined when it is NIGHT, and \<open>exercised\<close> is, for a DAY
  cycle, true iff some \<open>exercise\<close> event lies in the span, and undefined for a NIGHT
  cycle. Otherwise the range query raises \<open>DataError\<close> and nothing is reported.
\<close>

theorem calcCycleStats_by_cycle_type:
  assumes "hi = (case endTs c of None \<Rightarrow> now | Some e \<Rightarrow> e)"
  shows "(\<forall>lo. startTs c = Some lo \<and> lo \<le> hi \<longrightarrow>
     (\<exists>st. calcCycleStats now parseInt store c = Inr st \<and>
        wake st =
          (if ctype c = NIGHT
           then Some (length (filter (\<lambda>e. etype e = ''wake'' \<and> lo \<le> ts e \<and> ts e \<le> hi)
                                (map snd store)))
           else None) \<and>
        foodCnt st =
          (if ctype c = DAY
           then Some (length (filter (\<lambda>e. etype e = ''food'' \<and> lo \<le> ts e \<and> ts e \<le> hi)
                                (map snd store)))
           else None) \<and>
        exercised st =
          (if ctype c = DAY
           then Some (\<exists>e \<in> snd ` set store.
                        etype e = ''exercise'' \<and> lo \<le> ts e \<and> ts e \<le> hi)
           else None))) \<and>
    ((startTs c = None \<or> (\<exists>lo. startTs c = Some lo \<and> hi < lo)) \<longrightarrow>
       calcCycleStats now parseInt store c = Inl DataError)"
proof (intro conjI allI impI)
  fix lo
  assume r: "startTs c = Some lo \<and> lo \<le> hi"
  let ?evs = "sort_key ts (filter (\<lambda>e. lo \<le> ts e \<and> ts e \<le> hi) (index_by_ts store))"
  have eb: "eventsBetween store (startTs c) hi = Inr ?evs"
    using r by (simp add: eventsBetween_def)
  have ex: "list_ex (\<lambda>e. etype e = ''exercise'') ?evs =
      (\<exists>e \<in> snd ` set store. etype e = ''exercise'' \<and> lo \<le> ts e \<and> ts e \<le> hi)"
    unfolding list_ex_iff set_between by blast
  show "\<exists>st. calcCycleStats now parseInt store c = Inr st \<and>
        wake st =
          (if ctype c = NIGHT
           then Some (length (filter (\<lambda>e. etype e = ''wake'' \<and> lo \<le> ts e \<and> ts e \<le> hi)
                                (map snd store)))
           else None) \<and>
        foodCnt st =
          (if ctype c = DAY
           then Some (length (filter (\<lambda>e. etype e = ''food'' \<and> lo \<le> ts e \<and> ts e \<le> hi)
                                (map snd store)))
           else None) \<and>
        exercised st =
          (if ctype c = DAY
           then Some (\<exists>e \<in> snd ` set store.
                        etype e = ''exercise'' \<and> lo \<le> ts e \<and> ts e \<le> hi)
           else None)"
    using eb ex assms
    by (cases "ctype c") (simp_all add: calcCycleStats_def Let_def count_between)
next
  assume "startTs c = None \<or> (\<exists>lo. startTs c = Some lo \<and> hi < lo)"
  then have "eventsBetween store (startTs c) hi = Inl DataError"
    by (auto simp: eventsBetween_def)
  then show "calcCycleStats now parseInt store c = Inl DataError"
    using assms by (simp add: calcCycleStats_def)
qed

theorem calcCycleStats_by_cycle_type_witness:
  "(100::int) = (case endTs ex_night of None \<Rightarrow> 7 | Some e \<Rightarrow> e) \<and>
   startTs ex_night = Some 0 \<and> (0::int) \<le> 100 \<and>
   (\<exists>st. calcCycleStats 7 (\<lambda>str. None) ex_store ex_night = Inr st \<and>
      wake st = Some 1 \<and> foodCnt st = None \<and> exercised st = None) \<and>
   startTs (ex_night\<lparr>startTs := Some 200\<rparr>) = Some 200 \<and> (100::int) < 200 \<and>
   calcCycleStats 7 (\<lambda>str. None) ex_store (ex_night\<lparr>startTs := Some 200\<rparr>) = Inl DataError"
proof -
  have b: "(100::int) = (case endTs ex_night of None \<Rightarrow> 7 | Some e \<Rightarrow> e)"
    by (simp add: ex_night_def)
  have a: "startTs ex_night = Some 0 \<and> (0::int) \<le> 100"
    by (simp add: ex_night_def)
  have n: "ctype ex_night = NIGHT"
    by (simp add: ex_night_def)
  have w: "length (filter (\<lambda>e. etype e = ''wake'' \<and> 0 \<le> ts e \<and> ts e \<le> 100)
             (map snd ex_store)) = 1"
    by (simp add: ex_store_def mk_event_def)
  from calcCycleStats_by_cycle_type[OF b, of "\<lambda>str. None" ex_store,
      THEN conjunct1, rule_format, OF a]
  obtain st where st: "calcCycleStats 7 (\<lambda>str. None) ex_store ex_night = Inr st"
    "wake st = Some 1" "foodCnt st = None" "exercised st = None"
    unfolding n w by auto
  have b2: "(100::int) = (case endTs (ex_night\<lparr>startTs := Some 200\<rparr>) of
       None \<Rightarrow> 7 | Some e \<Rightarrow> e)"
    by (simp add: ex_night_def)
  have c2: "startTs (ex_night\<lparr>startTs := Some 200\<rparr>) = None \<or>
      (\<exists>lo. startTs (ex_night\<lparr>startTs := Some 200\<rparr>) = Some lo \<and> 100 < lo)"
    by simp
  have e: "calcCycleStats 7 (\<lambda>str. None) ex_store (ex_night\<lparr>startTs := Some 200\<rparr>) =
      Inl DataError"
    using calcCycleStats_by_cycle_type[OF b2, of "\<lambda>str. None" ex_store,
        THEN conjunct2, rule_format, OF c2] .
  from a b st e show ?thesis
    by auto
qed

section \<open>Weather cache and event writes: proofs\<close>

text \<open>The weather functions leave the \<open>events\<close> store as it is.\<close>

lemma getDailyWeatherArrays_events:
  "events_store (snd (getDailyWeatherArrays env w d la lo)) = events_store w"
  by (simp add: getDailyWeatherArrays_def Let_def split: fetch_result.splits option.splits)

lemma weatherForEventTs_events:
  "events_store (snd (weatherForEventTs env w t)) = events_store w"
proof (cases "getLatLon (env_geolocation env)")
  case None
  then show ?thesis by (simp add: weatherForEventTs_def)
next
  case (Some p)
  obtain la lo where p: "p = (la, lo)" by (cases p)
  obtain res w1 where g: "getDailyWeatherArrays env w t la lo = (res, w1)"
    by (cases "getDailyWeatherArrays env w t la lo")
  have "events_store w1 = events_store w"
    using getDailyWeatherArrays_events[of env w t la lo] g by simp
  then show ?thesis
    using Some p g
    by (simp add: weatherForEventTs_def split: sum.splits option.splits prod.splits)
qed

lemma attach_weather_events:
  "events_store (snd (attach_weather env w ev)) = events_store w"
proof -
  obtain res w1 where g: "weatherForEventTs env w (ts ev) = (res, w1)"
    by (cases "weatherForEventTs env w (ts ev)")
  have "events_store w1 = events_store w"
    using weatherForEventTs_events[of env w "ts ev"] g by simp
  then show ?thesis
    using g by (simp add: attach_weather_def split: sum.splits option.splits)
qed

text \<open>They leave the selected index as it is, too.\<close>

lemma getDailyWeatherArrays_idx:
  "currentCycleIdx (snd (getDailyWeatherArrays env w d la lo)) = currentCycleIdx w"
  by (simp add: getDailyWeatherArrays_def Let_def split: fetch_result.splits option.splits)

lemma weatherForEventTs_idx:
  "currentCycleIdx (snd (weatherForEventTs env w t)) = currentCycleIdx w"
proof (cases "getLatLon (env_geolocation env)")
  case None
  then show ?thesis by (simp add: weatherForEventTs_def)
next
  case (Some p)
  obtain la lo where p: "p = (la, lo)" by (cases p)
  obtain res w1 where g: "getDailyWeatherArrays env w t la lo = (res, w1)"
    by (cases "getDailyWeatherArrays env w t la lo")
  have "currentCycleIdx w1 = currentCycleIdx w"
    using getDailyWeatherArrays_idx[of env w t la lo] g by simp
  then show ?thesis
    using Some p g
    by (simp add: weatherForEventTs_def split: sum.splits option.splits prod.splits)
qed

lemma attach_weather_idx:
  "currentCycleIdx (snd (attach_weather env w ev)) = currentCycleIdx w"
proof -
  obtain res w1 where g: "weatherForEventTs env w (ts ev) = (res, w1)"
    by (cases "weatherForEventTs env w (ts ev)")
  have "currentCycleIdx w1 = currentCycleIdx w"
    using weatherForEventTs_idx[of env w "ts ev"] g by simp
  then show ?thesis
    using g by (simp add: attach_weather_def split: sum.splits option.splits)
qed

text \<open>\<open>attach_weather\<close> changes at most the \<open>weather\<close> field, and nothing when the lookup
  gives no reading.\<close>

lemma attach_weather_fields:
  "eid (fst (attach_weather env w ev)) = eid ev \<and>
   ts (fst (attach_weather env w ev)) = ts ev \<and>
   dateKey (fst (attach_weather env w ev)) = dateKey ev"
  by (cases "weatherForEventTs env w (ts ev)")
    (simp add: attach_weather_def split: sum.splits option.splits)

lemma attach_weather_fails:
  "lookup_fails env w (ts ev) \<Longrightarrow> fst (attach_weather env w ev) = ev"
  by (cases "weatherForEventTs env w (ts ev)")
    (simp add: attach_weather_def lookup_fails_def split: sum.splits option.splits)

text \<open>\<open>put\<close> of a record whose key is not in the store adds it.\<close>

lemma update_absent: "k \<notin> fst ` set al \<Longrightarrow> AList.update k v al = al @ [(k, v)]"
  by (induction al) auto

text \<open>Each stage at which the lookup can fail gives no reading.\<close>

lemma lookup_fails_no_location:
  "getLatLon (env_geolocation env) = None \<Longrightarrow> lookup_fails env w t"
  by (simp add: lookup_fails_def weatherForEventTs_def)

lemma lookup_fails_fetch_error:
  assumes "getLatLon (env_geolocation env) = Some (la, lo)"
    and "\<not> has_arrays (weather_cache w (ymd (env_toISOString env) t, la, lo))"
    and "env_fetch env \<lparr>latitude = la, longitude = lo,
           start_date = ymd (env_toISOString env) t,
           end_date = ymd (env_toISOString env) t\<rparr> = Rejected \<or>
         (\<exists>body. env_fetch env \<lparr>latitude = la, longitude = lo,
           start_date = ymd (env_toISOString env) t,
           end_date = ymd (env_toISOString env) t\<rparr> = Response False body)"
  shows "lookup_fails env w t"
  using assms
  by (auto simp: lookup_fails_def weatherForEventTs_def getDailyWeatherArrays_def Let_def)

lemma lookup_fails_no_sample:
  assumes "getLatLon (env_geolocation env) = Some (la, lo)"
    and "getDailyWeatherArrays env w t la lo = (Inr r, w1)"
    and "nearestWeatherAtTs (Some r) t = Inr None"
  shows "lookup_fails env w t"
  using assms by (simp add: lookup_fails_def weatherForEventTs_def)

text \<open>The cycle list is never empty, and the statistics fail exactly when the span of
  the cycle is no key range, with \<open>DataError\<close>.\<close>

lemma buildCycles_nonempty: "buildCyclesFromEvents now uuid evs \<noteq> []"
  by (simp add: buildCyclesFromEvents_def push_cycle_def Let_def split: option.splits)

lemma calcCycleStats_result:
  "(span_ok now c \<longrightarrow> (\<exists>st. calcCycleStats now p store c = Inr st)) \<and>
   (\<not> span_ok now c \<longrightarrow> calcCycleStats now p store c = Inl DataError)"
  by (cases "startTs c")
    (auto simp: span_ok_def calcCycleStats_def eventsBetween_def Let_def)

text \<open>\<open>renderCycle\<close> leaves the events as they are, and it returns normally exactly when
  the span of the cycle it has selected is a key range.\<close>

lemma renderCycle_events:
  "events_store (snd (renderCycle now uuid p w)) = events_store w"
  by (simp add: renderCycle_def refreshCycles_def Let_def split: sum.splits)

lemma renderCycle_result:
  "fst (renderCycle now uuid p w) =
     (if span_ok now (cycles (snd (renderCycle now uuid p w)) !
                      nat (currentCycleIdx (snd (renderCycle now uuid p w))))
      then Inr () else Inl DataError)"
proof -
  define cs where "cs = buildCyclesFromEvents now uuid (getAllEvents (events_store w))"
  define i2 where "i2 =
    (if (if currentCycleIdx w < 0 then 0 else currentCycleIdx w) \<ge> int (length cs)
     then int (length cs) - 1
     else (if currentCycleIdx w < 0 then 0 else currentCycleIdx w))"
  define w2 where "w2 = w\<lparr>cycles := cs, currentCycleIdx := i2\<rparr>"
  have ne: "length cs \<noteq> 0"
    unfolding cs_def using buildCycles_nonempty[of now uuid "getAllEvents (events_store w)"]
    by simp
  have rc: "renderCycle now uuid p w =
      (case calcCycleStats now p (events_store w) (cs ! nat i2) of
         Inl e \<Rightarrow> (Inl e, w2)
       | Inr st \<Rightarrow> (Inr (), w2))"
    using ne unfolding cs_def i2_def w2_def
    by (simp add: renderCycle_def refreshCycles_def Let_def split: sum.splits)
  have sw: "snd (renderCycle now uuid p w) = w2"
    unfolding rc by (cases "calcCycleStats now p (events_store w) (cs ! nat i2)") simp_all
  have sel: "cycles w2 ! nat (currentCycleIdx w2) = cs ! nat i2"
    by (simp add: w2_def)
  show ?thesis
  proof (cases "span_ok now (cs ! nat i2)")
    case True
    with calcCycleStats_result[of now "cs ! nat i2" p "events_store w"]
    obtain st where "calcCycleStats now p (events_store w) (cs ! nat i2) = Inr st"
      by blast
    then have "fst (renderCycle now uuid p w) = Inr ()"
      unfolding rc by simp
    with True show ?thesis
      unfolding sw sel by simp
  next
    case False
    with calcCycleStats_result[of now "cs ! nat i2" p "events_store w"]
    have "calcCycleStats now p (events_store w) (cs ! nat i2) = Inl DataError"
      by blast
    then have "fst (renderCycle now uuid p w) = Inl DataError"
      unfolding rc by simp
    with False show ?thesis
      unfolding sw sel by simp
  qed
qed

text \<open>The state \<open>renderCycle\<close> leaves: the cycles of all events, and the index clamped
  into their range.\<close>

lemma renderCycle_state:
  "cycles (snd (renderCycle now uuid p w)) =
     buildCyclesFromEvents now uuid (getAllEvents (events_store w)) \<and>
   currentCycleIdx (snd (renderCycle now uuid p w)) =
     min (max 0 (currentCycleIdx w))
       (int (length (buildCyclesFromEvents now uuid (getAllEvents (events_store w)))) - 1)"
proof -
  define cs where "cs = buildCyclesFromEvents now uuid (getAllEvents (events_store w))"
  have ne: "0 < length cs"
    unfolding cs_def using buildCycles_nonempty[of now uuid "getAllEvents (events_store w)"]
    by simp
  have "cycles (snd (renderCycle now uuid p w)) = cs \<and>
      currentCycleIdx (snd (renderCycle now uuid p w)) =
        (if (if currentCycleIdx w < 0 then 0 else currentCycleIdx w) \<ge> int (length cs)
         then int (length cs) - 1
         else (if currentCycleIdx w < 0 then 0 else currentCycleIdx w))"
    using ne unfolding cs_def
    by (auto simp: renderCycle_def refreshCycles_def Let_def split: sum.splits)
  moreover have "(if (if currentCycleIdx w < 0 then 0 else currentCycleIdx w) \<ge> int (length cs)
         then int (length cs) - 1
         else (if currentCycleIdx w < 0 then 0 else currentCycleIdx w)) =
      min (max 0 (currentCycleIdx w)) (int (length cs) - 1)"
    using ne by (simp add: min_def max_def)
  ultimately show ?thesis
    unfolding cs_def by simp
qed

text \<open>What \<open>addEvent\<close> leaves in the store when the input's \<open>id\<close> is absent or a value,
  and what it does when the \<open>id\<close> is there without a value.\<close>

lemma addEvent_events_store:
  assumes "eid ev \<noteq> Nullish"
  shows "events_store (snd (addEvent env w ev)) =
     AList.update (written_id env ev)
       ((fst (attach_weather env w ev))
          \<lparr>eid := Present (written_id env ev),
           dateKey := (case dateKey ev of
                         Absent \<Rightarrow> Present (ymd (env_toISOString env) (ts ev))
                       | Nullish \<Rightarrow> Nullish
                       | Present d \<Rightarrow> Present d)\<rparr>)
       (events_store w)"
proof -
  obtain ev1 w1 where a: "attach_weather env w ev = (ev1, w1)"
    by (cases "attach_weather env w ev")
  have f: "eid ev1 = eid ev" "ts ev1 = ts ev" "dateKey ev1 = dateKey ev"
    using attach_weather_fields[of env w ev] a by simp_all
  have s: "events_store w1 = events_store w"
    using attach_weather_events[of env w ev] a by simp
  show ?thesis
    using a f s assms
    by (cases "eid ev"; cases "dateKey ev")
      (simp_all add: addEvent_def put_event_def Let_def written_id_def renderCycle_events)
qed

lemma addEvent_result:
  assumes "eid ev \<noteq> Nullish"
  shows "fst (addEvent env w ev) =
     (if span_ok (env_now env)
           (cycles (snd (addEvent env w ev)) ! nat (currentCycleIdx (snd (addEvent env w ev))))
      then Inr () else Inl DataError)"
proof -
  obtain ev1 w1 where a: "attach_weather env w ev = (ev1, w1)"
    by (cases "attach_weather env w ev")
  have f: "eid ev1 = eid ev"
    using attach_weather_fields[of env w ev] a by simp
  show ?thesis
    using a f assms
    by (cases "eid ev")
      (simp_all add: addEvent_def put_event_def Let_def renderCycle_result[symmetric])
qed

lemma addEvent_state:
  assumes "eid ev \<noteq> Nullish"
  shows "cycles (snd (addEvent env w ev)) =
           buildCyclesFromEvents (env_now env) (\<lambda>n. env_uuid env (Suc n))
             (getAllEvents (events_store (snd (addEvent env w ev)))) \<and>
         currentCycleIdx (snd (addEvent env w ev)) =
           min (max 0 (currentCycleIdx w)) (int (length (cycles (snd (addEvent env w ev)))) - 1)"
proof -
  obtain ev1 w1 where a: "attach_weather env w ev = (ev1, w1)"
    by (cases "attach_weather env w ev")
  have f: "eid ev1 = eid ev"
    using attach_weather_fields[of env w ev] a by simp
  have i: "currentCycleIdx w1 = currentCycleIdx w"
    using attach_weather_idx[of env w ev] a by simp
  obtain k where k: "eid ev = Absent \<and> k = env_uuid env 0 \<or> eid ev = Present k"
    using assms by (cases "eid ev") auto
  define r where "r = ev1\<lparr>eid := Present k,
      dateKey := (case dateKey ev1 of
                    Absent \<Rightarrow> Present (ymd (env_toISOString env) (ts ev1))
                  | Nullish \<Rightarrow> Nullish
                  | Present d \<Rightarrow> Present d)\<rparr>"
  define w2 where "w2 = w1\<lparr>events_store := AList.update k r (events_store w1)\<rparr>"
  have ae: "addEvent env w ev =
      renderCycle (env_now env) (\<lambda>n. env_uuid env (Suc n)) (env_parseInt env) w2"
    using a f k unfolding w2_def r_def
    by (auto simp: addEvent_def put_event_def Let_def)
  have "currentCycleIdx w2 = currentCycleIdx w"
    using i by (simp add: w2_def)
  then show ?thesis
    unfolding ae
    using renderCycle_state[of "env_now env" "\<lambda>n. env_uuid env (Suc n)" "env_parseInt env" w2]
      renderCycle_events[of "env_now env" "\<lambda>n. env_uuid env (Suc n)" "env_parseInt env" w2]
    by simp
qed

lemma addEvent_nullish_id:
  assumes "eid ev = Nullish"
  shows "fst (addEvent env w ev) = Inl DataError \<and>
         events_store (snd (addEvent env w ev)) = events_store w"
proof -
  obtain ev1 w1 where a: "attach_weather env w ev = (ev1, w1)"
    by (cases "attach_weather env w ev")
  have f: "eid ev1 = eid ev"
    using attach_weather_fields[of env w ev] a by simp
  have s: "events_store w1 = events_store w"
    using attach_weather_events[of env w ev] a by simp
  show ?thesis
    using a f s assms by (simp add: addEvent_def put_event_def Let_def)
qed

text \<open>
  C4 (amended). \<open>updateEvent\<close> has no check that the id is stored and raises no
  \<open>NotFoundError\<close>: for an event whose id is not the id of any stored event it returns
  normally and \<open>put\<close> adds the event, with \<open>dateKey\<close> recomputed from \<open>ts\<close>, as a new
  record under that id; the records already stored stay as they are.
\<close>

theorem updateEvent_unknown_id_inserts:
  assumes "eid ev = Present i" and "i \<notin> fst ` set (events_store w)"
  shows "fst (updateEvent env w ev) = Inr () \<and>
         events_store (snd (updateEvent env w ev)) =
           events_store w @
             [(i, (fst (attach_weather env w ev))
                    \<lparr>dateKey := Present (ymd (env_toISOString env) (ts ev))\<rparr>)]"
proof -
  obtain ev1 w1 where a: "attach_weather env w ev = (ev1, w1)"
    by (cases "attach_weather env w ev")
  have f: "eid ev1 = Present i" "ts ev1 = ts ev"
    using attach_weather_fields[of env w ev] a assms(1) by simp_all
  have s: "events_store w1 = events_store w"
    using attach_weather_events[of env w ev] a by simp
  show ?thesis
    using a f s assms(2)
    by (simp add: updateEvent_def put_event_def Let_def update_absent)
qed

theorem updateEvent_unknown_id_inserts_witness:
  "eid ((mk_event ''water'' 0)\<lparr>eid := Present ''e1''\<rparr>) = Present ''e1'' \<and>
   ''e1'' \<notin> fst ` set (events_store ex_world) \<and>
   fst (updateEvent ex_env ex_world ((mk_event ''water'' 0)\<lparr>eid := Present ''e1''\<rparr>)) = Inr () \<and>
   events_store (snd (updateEvent ex_env ex_world ((mk_event ''water'' 0)\<lparr>eid := Present ''e1''\<rparr>))) =
     [(''e1'', (mk_event ''water'' 0)\<lparr>eid := Present ''e1'', dateKey := Present ''1970-01-01''\<rparr>)]"
proof -
  let ?ev = "(mk_event ''water'' 0)\<lparr>eid := Present ''e1''\<rparr>"
  have a: "eid ?ev = Present ''e1''"
    by simp
  have b: "''e1'' \<notin> fst ` set (events_store ex_world)"
    by (simp add: ex_world_def)
  have c: "fst (attach_weather ex_env ex_world ?ev) = ?ev"
    by (simp add: attach_weather_def mk_event_def)
  have d: "ymd (env_toISOString ex_env) (ts ?ev) = ''1970-01-01''"
    by (simp add: ymd_def ex_env_def)
  from updateEvent_unknown_id_inserts[OF a b, of ex_env] a b show ?thesis
    unfolding c d by (simp add: ex_world_def)
qed

text \<open>C4 as stated fails: on the empty store, \<open>updateEvent\<close> of an event with the id
  \<open>'e1'\<close> returns normally and the store then holds the event.\<close>

theorem updateEvent_NotFound_counterexample:
  "events_store ex_world = [] \<and>
   fst (updateEvent ex_env ex_world ((mk_event ''water'' 0)\<lparr>eid := Present ''e1''\<rparr>)) = Inr () \<and>
   map_of (events_store
       (snd (updateEvent ex_env ex_world ((mk_event ''water'' 0)\<lparr>eid := Present ''e1''\<rparr>)))) ''e1'' =
     Some ((mk_event ''water'' 0)\<lparr>eid := Present ''e1'', dateKey := Present ''1970-01-01''\<rparr>)"
  by (simp add: updateEvent_def attach_weather_def put_event_def mk_event_def ex_world_def
      ex_env_def ymd_def)

text \<open>
  C5 (amended). \<open>getDailyWeatherArrays\<close> returns the cached record, sends no request
  and leaves the database as it is exactly when the cache holds for the key
  \<open>(dateKey, lat, lon)\<close> a record whose \<open>hours\<close>, \<open>temps\<close> and \<open>hums\<close> are all present; the
  arrays may be empty, so a cached record with empty arrays is returned and nothing is
  fetched. Otherwise it sends one request. A call never changes a record that has the
  three arrays, and after a call that returns a record the key holds one: such a key is
  never fetched again.
\<close>

theorem getDailyWeatherArrays_cache:
  "(has_arrays (weather_cache w (ymd (env_toISOString env) date, la, lo)) \<longrightarrow>
      getDailyWeatherArrays env w date la lo =
        (Inr (the (weather_cache w (ymd (env_toISOString env) date, la, lo))), w)) \<and>
   (\<not> has_arrays (weather_cache w (ymd (env_toISOString env) date, la, lo)) \<longrightarrow>
      fetch_log (snd (getDailyWeatherArrays env w date la lo)) =
        fetch_log w @ [\<lparr>latitude = la, longitude = lo,
                        start_date = ymd (env_toISOString env) date,
                        end_date = ymd (env_toISOString env) date\<rparr>]) \<and>
   (\<forall>k. has_arrays (weather_cache w k) \<longrightarrow>
      weather_cache (snd (getDailyWeatherArrays env w date la lo)) k = weather_cache w k) \<and>
   (\<forall>r. fst (getDailyWeatherArrays env w date la lo) = Inr r \<longrightarrow>
      has_arrays (weather_cache (snd (getDailyWeatherArrays env w date la lo))
        (ymd (env_toISOString env) date, la, lo)))"
proof (cases "has_arrays (weather_cache w (ymd (env_toISOString env) date, la, lo))")
  case True
  then show ?thesis
    by (simp add: getDailyWeatherArrays_def)
next
  case False
  then show ?thesis
    by (auto simp: getDailyWeatherArrays_def Let_def has_arrays_def
        split: fetch_result.splits option.splits)
qed

theorem getDailyWeatherArrays_cache_witness:
  "has_arrays (weather_cache ex_world_cached (ymd (env_toISOString ex_env) 0, 1000, 2000)) \<and>
   getDailyWeatherArrays ex_env ex_world_cached 0 1000 2000 = (Inr ex_empty_rec, ex_world_cached) \<and>
   \<not> has_arrays (weather_cache ex_world (ymd (env_toISOString ex_env) 0, 1000, 2000)) \<and>
   fetch_log (snd (getDailyWeatherArrays ex_env ex_world 0 1000 2000)) =
     [\<lparr>latitude = 1000, longitude = 2000, start_date = ''1970-01-01'',
       end_date = ''1970-01-01''\<rparr>]"
proof -
  have k: "ymd (env_toISOString ex_env) 0 = ''1970-01-01''"
    by (simp add: ymd_def ex_env_def)
  have a: "has_arrays (weather_cache ex_world_cached (ymd (env_toISOString ex_env) 0, 1000, 2000))"
    by (simp add: k has_arrays_def ex_world_cached_def ex_empty_rec_def)
  have b: "\<not> has_arrays (weather_cache ex_world (ymd (env_toISOString ex_env) 0, 1000, 2000))"
    by (simp add: has_arrays_def ex_world_def)
  have c: "the (weather_cache ex_world_cached (''1970-01-01'', 1000, 2000)) = ex_empty_rec"
    by (simp add: ex_world_cached_def)
  have d: "fetch_log ex_world = []"
    by (simp add: ex_world_def)
  from getDailyWeatherArrays_cache[of ex_world_cached ex_env 0 1000 2000] a
  have 1: "getDailyWeatherArrays ex_env ex_world_cached 0 1000 2000 = (Inr ex_empty_rec, ex_world_cached)"
    unfolding k c by blast
  from getDailyWeatherArrays_cache[of ex_world ex_env 0 1000 2000] b
  have 2: "fetch_log (snd (getDailyWeatherArrays ex_env ex_world 0 1000 2000)) =
     [\<lparr>latitude = 1000, longitude = 2000, start_date = ''1970-01-01'',
       end_date = ''1970-01-01''\<rparr>]"
    unfolding k d by simp
  from a b 1 2 show ?thesis
    by blast
qed

text \<open>C5 as stated fails: a cached record whose three arrays are empty is returned as
  it is, and no request is sent.\<close>

theorem getDailyWeatherArrays_empty_counterexample:
  "weather_cache ex_world_cached (ymd (env_toISOString ex_env) 0, 1000, 2000) = Some ex_empty_rec \<and>
   hours ex_empty_rec = Some [] \<and> temps ex_empty_rec = Some [] \<and> hums ex_empty_rec = Some [] \<and>
   fst (getDailyWeatherArrays ex_env ex_world_cached 0 1000 2000) = Inr ex_empty_rec \<and>
   fetch_log (snd (getDailyWeatherArrays ex_env ex_world_cached 0 1000 2000)) =
     fetch_log ex_world_cached"
  by (simp add: getDailyWeatherArrays_def has_arrays_def ymd_def ex_env_def
      ex_world_cached_def ex_empty_rec_def Let_def)




text \<open>
  C8 (amended). When \<open>addEvent\<close> or \<open>updateEvent\<close> is called with an event of type
  \<open>sleep_start\<close>, \<open>sleep_end\<close> or \<open>wake\<close> and the weather lookup gives no reading (it
  returns \<open>null\<close> or throws, at whatever stage), no error of the lookup reaches the
  caller and the event is persisted with its \<open>weather\<close> field as it was on the input:
  without one when the input had none, with the old reading when it carried one.
  \<open>updateEvent\<close> returns normally when the event has an id. \<open>addEvent\<close>, for an input
  whose \<open>id\<close> is absent or a value, persists the event and then re-renders: it returns
  normally exactly when the span of the cycle selected for display (the cycle, among
  those of all stored events, at \<open>state.currentCycleIdx\<close> clamped into their range) is
  a key range (\<open>startTs\<close> not after \<open>endTs ?? now\<close>), and otherwise the \<open>DataError\<close> of the re-render
  reaches the caller with the event already stored. An input whose \<open>id\<close> is \<open>null\<close> or
  \<open>undefined\<close> is not stored: the put raises \<open>DataError\<close>.
\<close>

theorem write_survives_weather_failure:
  assumes "etype ev = ''sleep_start'' \<or> etype ev = ''sleep_end'' \<or> etype ev = ''wake''"
    and "lookup_fails env w (ts ev)"
  shows "(eid ev \<noteq> Nullish \<longrightarrow>
            (\<exists>r. map_of (events_store (snd (addEvent env w ev))) (written_id env ev) = Some r \<and>
                 weather r = weather ev \<and> etype r = etype ev \<and> ts r = ts ev) \<and>
            (fst (addEvent env w ev) = Inr () \<or> fst (addEvent env w ev) = Inl DataError) \<and>
            ((fst (addEvent env w ev) = Inr ()) =
               span_ok (env_now env)
                 (cycles (snd (addEvent env w ev)) !
                    nat (currentCycleIdx (snd (addEvent env w ev))))) \<and>
            cycles (snd (addEvent env w ev)) =
              buildCyclesFromEvents (env_now env) (\<lambda>n. env_uuid env (Suc n))
                (getAllEvents (events_store (snd (addEvent env w ev)))) \<and>
            currentCycleIdx (snd (addEvent env w ev)) =
              min (max 0 (currentCycleIdx w))
                (int (length (cycles (snd (addEvent env w ev)))) - 1)) \<and>
         (eid ev = Nullish \<longrightarrow>
            fst (addEvent env w ev) = Inl DataError \<and>
            events_store (snd (addEvent env w ev)) = events_store w) \<and>
         (\<forall>i. eid ev = Present i \<longrightarrow>
            fst (updateEvent env w ev) = Inr () \<and>
            map_of (events_store (snd (updateEvent env w ev))) i =
              Some (ev\<lparr>dateKey := Present (ymd (env_toISOString env) (ts ev))\<rparr>))"
proof (intro conjI impI allI)
  assume n: "eid ev \<noteq> Nullish"
  have e: "fst (attach_weather env w ev) = ev"
    using attach_weather_fails[OF assms(2)] .
  show "\<exists>r. map_of (events_store (snd (addEvent env w ev))) (written_id env ev) = Some r \<and>
            weather r = weather ev \<and> etype r = etype ev \<and> ts r = ts ev"
    by (simp add: addEvent_events_store[OF n] e update_conv')
  show "fst (addEvent env w ev) = Inr () \<or> fst (addEvent env w ev) = Inl DataError"
    using addEvent_result[OF n, of env w] by (simp split: if_splits)
  show "(fst (addEvent env w ev) = Inr ()) =
          span_ok (env_now env)
            (cycles (snd (addEvent env w ev)) ! nat (currentCycleIdx (snd (addEvent env w ev))))"
    using addEvent_result[OF n, of env w] by (simp split: if_splits)
  show "cycles (snd (addEvent env w ev)) =
          buildCyclesFromEvents (env_now env) (\<lambda>n. env_uuid env (Suc n))
            (getAllEvents (events_store (snd (addEvent env w ev))))"
    using addEvent_state[OF n, of env w] by simp
  show "currentCycleIdx (snd (addEvent env w ev)) =
          min (max 0 (currentCycleIdx w))
            (int (length (cycles (snd (addEvent env w ev)))) - 1)"
    using addEvent_state[OF n, of env w] by simp
next
  assume "eid ev = Nullish"
  from addEvent_nullish_id[OF this, of env w]
  show "fst (addEvent env w ev) = Inl DataError"
    and "events_store (snd (addEvent env w ev)) = events_store w"
    by simp_all
next
  fix i
  assume i: "eid ev = Present i"
  obtain ev1 w1 where a: "attach_weather env w ev = (ev1, w1)"
    by (cases "attach_weather env w ev")
  have e: "ev1 = ev"
    using attach_weather_fails[OF assms(2)] a by simp
  show "fst (updateEvent env w ev) = Inr ()"
    using a e i by (simp add: updateEvent_def put_event_def Let_def)
  show "map_of (events_store (snd (updateEvent env w ev))) i =
          Some (ev\<lparr>dateKey := Present (ymd (env_toISOString env) (ts ev))\<rparr>)"
    using a e i by (simp add: updateEvent_def put_event_def Let_def update_conv')
qed

text \<open>The cycles \<open>addEvent\<close> leaves in \<open>state\<close> after a first \<open>sleep_start\<close> at time \<open>t\<close> on
  the empty store, and the index it selects.\<close>

lemma addEvent_first_sleep_start_state:
  assumes "env_geolocation env = NoGeolocation"
    and "events_store w = []"
  shows "map (\<lambda>c. (ctype c, startTs c, endTs c))
           (cycles (snd (addEvent env w (mk_event ''sleep_start'' t)))) =
           [(NIGHT, Some t, Some t), (NIGHT, Some t, None)] \<and>
         currentCycleIdx (snd (addEvent env w (mk_event ''sleep_start'' t))) =
           (if currentCycleIdx w < 0 then 0
            else if currentCycleIdx w \<ge> 2 then 1 else currentCycleIdx w)"
  using assms
  by (simp add: addEvent_def attach_weather_def weatherForEventTs_def getLatLon_def
      put_event_def Let_def renderCycle_def refreshCycles_def getAllEvents_def
      index_by_ts_def build_defs split: sum.splits)

theorem write_survives_weather_failure_witness:
  "(etype (mk_event ''sleep_start'' 0) = ''sleep_start'' \<or>
    etype (mk_event ''sleep_start'' 0) = ''sleep_end'' \<or>
    etype (mk_event ''sleep_start'' 0) = ''wake'') \<and>
   lookup_fails ex_env ex_world (ts (mk_event ''sleep_start'' 0)) \<and>
   eid (mk_event ''sleep_start'' 0) \<noteq> Nullish \<and>
   (\<exists>r. map_of (events_store (snd (addEvent ex_env ex_world (mk_event ''sleep_start'' 0))))
          (written_id ex_env (mk_event ''sleep_start'' 0)) = Some r \<and>
        weather r = None \<and> etype r = ''sleep_start'' \<and> ts r = 0) \<and>
   fst (addEvent ex_env ex_world (mk_event ''sleep_start'' 0)) = Inr () \<and>
   fst (weatherForEventTs ex_env_located ex_world (ts (mk_event ''sleep_start'' 0))) =
     Inl NetworkError \<and>
   fst (addEvent ex_env_located ex_world (mk_event ''sleep_start'' 0)) = Inr ()"
proof -
  let ?ev = "mk_event ''sleep_start'' 0"
  have a: "etype ?ev = ''sleep_start'' \<or> etype ?ev = ''sleep_end'' \<or> etype ?ev = ''wake''"
    by (simp add: mk_event_def)
  have b: "lookup_fails ex_env ex_world (ts ?ev)"
    by (rule lookup_fails_no_location) (simp add: getLatLon_def ex_env_def)
  have n: "eid ?ev \<noteq> Nullish"
    by (simp add: mk_event_def)
  have c: "weather ?ev = None" "etype ?ev = ''sleep_start''" "ts ?ev = 0"
    by (simp_all add: mk_event_def)
  have d: "fst (weatherForEventTs ex_env_located ex_world (ts ?ev)) = Inl NetworkError"
    by (simp add: weatherForEventTs_def getLatLon_def getDailyWeatherArrays_def has_arrays_def
        Let_def ex_env_located_def ex_env_def ex_world_def mk_event_def)
  then have e: "lookup_fails ex_env_located ex_world (ts ?ev)"
    by (simp add: lookup_fails_def)
  note t1 = write_survives_weather_failure[OF a b, THEN conjunct1, rule_format, OF n]
  note t2 = write_survives_weather_failure[OF a e, THEN conjunct1, rule_format, OF n]
  have s1: "span_ok (env_now ex_env)
      (cycles (snd (addEvent ex_env ex_world ?ev)) !
         nat (currentCycleIdx (snd (addEvent ex_env ex_world ?ev))))"
  proof -
    obtain c1 c2 where cs: "cycles (snd (addEvent ex_env ex_world ?ev)) = [c1, c2]"
      and c1: "startTs c1 = Some 0" "endTs c1 = Some 0"
      using addEvent_first_sleep_start_state[of ex_env ex_world 0]
      by (auto simp: ex_env_def ex_world_def)
    have "currentCycleIdx (snd (addEvent ex_env ex_world ?ev)) = 0"
      using addEvent_first_sleep_start_state[of ex_env ex_world 0]
      by (simp add: ex_env_def ex_world_def)
    with cs c1 show ?thesis
      by (simp add: span_ok_def)
  qed
  have r1: "fst (addEvent ex_env ex_world ?ev) = Inr ()"
    using t1 s1 by simp
  have r2: "fst (addEvent ex_env_located ex_world ?ev) = Inr ()"
    by (simp add: addEvent_def attach_weather_def weatherForEventTs_def getLatLon_def
        getDailyWeatherArrays_def has_arrays_def ymd_def
        put_event_def Let_def renderCycle_def refreshCycles_def getAllEvents_def
        index_by_ts_def build_defs calcCycleStats_def eventsBetween_def
        ex_env_located_def ex_env_def ex_world_def)
  from t1 t2 a b n d r1 r2 show ?thesis
    unfolding c by blast
qed

text \<open>The error of the re-render does reach the caller: while the last cycle is
  selected, a \<open>sleep_start\<close> is added whose time 1000 is after \<open>Date.now() = 0\<close>. The event
  is stored, the open NIGHT cycle from 1000 is selected, its range query runs from 1000
  to 0, and \<open>addEvent\<close> rejects with \<open>DataError\<close>.\<close>

lemma addEvent_render_error_example:
  "fst (addEvent ex_env (ex_world\<lparr>currentCycleIdx := 1\<rparr>) (mk_event ''sleep_start'' 1000)) =
     Inl DataError \<and>
   map_option ts
     (map_of (events_store
        (snd (addEvent ex_env (ex_world\<lparr>currentCycleIdx := 1\<rparr>) (mk_event ''sleep_start'' 1000))))
        ''uuid-1'') = Some 1000"
  by (simp add: addEvent_def attach_weather_def weatherForEventTs_def getLatLon_def ymd_def
      put_event_def Let_def renderCycle_def refreshCycles_def getAllEvents_def
      index_by_ts_def build_defs calcCycleStats_def eventsBetween_def
      ex_env_def ex_world_def)

text \<open>C8 as stated fails: a stored \<open>sleep_start\<close> event that carries a reading is
  updated while no location is available; the lookup returns \<open>null\<close> and the event is
  persisted with the old reading, not without a \<open>weather\<close> field.\<close>

theorem write_keeps_old_weather_counterexample:
  "etype ex_sleep_with_weather = ''sleep_start'' \<and>
   fst (weatherForEventTs ex_env ex_world (ts ex_sleep_with_weather)) = Inr None \<and>
   fst (updateEvent ex_env ex_world ex_sleep_with_weather) = Inr () \<and>
   map_option weather
     (map_of (events_store (snd (updateEvent ex_env ex_world ex_sleep_with_weather))) ''e1'') =
     Some (Some \<lparr>temp = 20, hum = 50, lat = 1000, lon = 2000\<rparr>)"
  by (simp add: updateEvent_def attach_weather_def weatherForEventTs_def getLatLon_def
      put_event_def ex_sleep_with_weather_def mk_event_def ex_world_def ex_env_def ymd_def)

end
